theory Spec2Isabelle
  imports Complex_Main "HOL-Library.Sublist" "HOL-Library.AList"
begin

section \<open>JavaScript values\<close>

text \<open>
  The handlers and the widget work on parsed JSON. A value is one of JavaScript's
  JSON-shaped values, with \<open>undefined\<close> for a property that is not there. An object
  is an association list; the first binding of a key is the property's value.
  Numbers are the integers of the payloads (\<open>progress_ms\<close>, \<open>duration_ms\<close>,
  string lengths).
\<close>

datatype json =
    JUndefined
  | JNull
  | JBool bool
  | JNum int
  | JStr string
  | JArr "json list"
  | JObj "(string \<times> json) list"

text \<open>A thrown JavaScript error: its \<open>name\<close> and its \<open>message\<close>.\<close>

datatype js_error = JsError (err_name: string) (err_message: string)

text \<open>Truthiness, as \<open>!x\<close>, \<open>x || y\<close> and \<open>x ? a : b\<close> read it.\<close>

fun truthy :: "json \<Rightarrow> bool" where
  "truthy JUndefined = False"
| "truthy JNull = False"
| "truthy (JBool b) = b"
| "truthy (JNum n) = (n \<noteq> 0)"
| "truthy (JStr s) = (s \<noteq> [])"
| "truthy (JArr xs) = True"
| "truthy (JObj kvs) = True"

fun nullish :: "json \<Rightarrow> bool" where
  "nullish JUndefined = True"
| "nullish JNull = True"
| "nullish v = False"

text \<open>
  \<open>v.k\<close> for a value that is neither \<open>null\<close> nor \<open>undefined\<close>: the property of an
  object, \<open>undefined\<close> when the object lacks it or the value is a primitive or an array
  (none of the property names read here is one of theirs).
\<close>

fun jprop :: "json \<Rightarrow> string \<Rightarrow> json" where
  "jprop (JObj kvs) k = (case map_of kvs k of Some v \<Rightarrow> v | None \<Rightarrow> JUndefined)"
| "jprop v k = JUndefined"

text \<open>
  \<open>v.k\<close> in full: reading a property of \<open>null\<close> or \<open>undefined\<close> throws a TypeError.
  The message is the one Node and Chrome give for a property read; it names the
  receiver. The destructuring \<open>const { k } = v\<close> throws the same error with other
  words. Of the wording, the code tests only whether it mentions \<open>fetch\<close>, the
  widget whether it is empty.
\<close>

definition type_error :: "json \<Rightarrow> string \<Rightarrow> js_error" where
  "type_error v k =
     JsError ''TypeError''
       (''Cannot read properties of '' @ (if v = JNull then ''null'' else ''undefined'') @
        '' (reading '' @ [CHR 0x27] @ k @ [CHR 0x27] @ '')'')"

definition get_prop :: "json \<Rightarrow> string \<Rightarrow> js_error + json" where
  "get_prop v k = (if nullish v then Inl (type_error v k) else Inr (jprop v k))"

text \<open>\<open>v?.k\<close>: \<open>undefined\<close> when \<open>v\<close> is \<open>null\<close> or \<open>undefined\<close>.\<close>

definition opt_prop :: "json \<Rightarrow> string \<Rightarrow> json" where
  "opt_prop v k = (if nullish v then JUndefined else jprop v k)"

text \<open>\<open>x || d\<close>.\<close>

definition or_else :: "json \<Rightarrow> json \<Rightarrow> json" where
  "or_else x d = (if truthy x then x else d)"

text \<open>
  \<open>await p\<close> followed by the rest of the function: a rejection (\<open>Inl\<close>) leaves the
  function as a thrown error, a value goes on to the continuation. The same shape
  serves a synchronous expression that can throw.
\<close>

fun await :: "js_error + 'a \<Rightarrow> ('a \<Rightarrow> js_error + 'b) \<Rightarrow> js_error + 'b" where
  "await (Inl e) k = Inl e"
| "await (Inr x) k = k x"

section \<open>Double arithmetic\<close>

text \<open>
  JavaScript numbers are IEEE 754 doubles. The numbers computed with here, in
  \<open>getRetryDelay\<close> and in \<open>parseInt\<close>, are finite and not negative; such a double is
  a dyadic rational \<open>mant / 2^scale\<close> (written in more than one way). An operation
  computes the exact result and rounds it to the nearest double, a tie to the even
  significand: at most 53 significant bits, and no bit below \<open>2^-1074\<close>. The
  rounding gives the value a double of unbounded exponent would take; from
  \<open>2^1024\<close> on that stands for \<open>Infinity\<close>, which the delays never come near and
  \<open>parseInt\<close> tests for.
\<close>

datatype double = Double (mant: nat) (scale: nat)

definition dval :: "double \<Rightarrow> real" where
  "dval d = real (mant d) / 2 ^ scale d"

text \<open>The number of bits of \<open>n\<close>.\<close>

fun bit_length :: "nat \<Rightarrow> nat" where
  "bit_length n = (if n = 0 then 0 else Suc (bit_length (n div 2)))"

declare bit_length.simps [simp del]

text \<open>
  The double nearest to \<open>m / 2^s\<close>. The low \<open>k\<close> bits of \<open>m\<close> are dropped: those
  beyond 53 significant bits and those below \<open>2^-1074\<close> (the subtractions are on
  natural numbers, 0 when nothing is to drop). The rest is rounded up when the
  dropped part is more than half a unit, or is half a unit and the rest is odd.
\<close>

definition round_double :: "nat \<Rightarrow> nat \<Rightarrow> double" where
  "round_double m s =
     (let k = max (bit_length m - 53) (s - 1074) in
      if k = 0 then Double m s
      else
        let q = m div 2 ^ k; r = m mod 2 ^ k; half = 2 ^ (k - 1);
            q' = (if r < half \<or> (r = half \<and> even q) then q else q + 1)
        in if k \<le> s then Double q' (s - k) else Double (q' * 2 ^ (k - s)) 0)"

text \<open>\<open>a * b\<close> and \<open>a + b\<close>.\<close>

definition dmul :: "double \<Rightarrow> double \<Rightarrow> double" where
  "dmul a b = round_double (mant a * mant b) (scale a + scale b)"

definition dadd :: "double \<Rightarrow> double \<Rightarrow> double" where
  "dadd a b =
     (let s = max (scale a) (scale b)
      in round_double (mant a * 2 ^ (s - scale a) + mant b * 2 ^ (s - scale b)) s)"

section \<open>The widget: cache, polling interval, retry delay\<close>

subsection \<open>\<open>CACHE_TTL\<close>, \<open>getCachedData\<close>, \<open>setCachedData\<close>\<close>

definition CACHE_TTL_PLAYING :: int where "CACHE_TTL_PLAYING = 5 * 1000"
definition CACHE_TTL_PAUSED :: int where "CACHE_TTL_PAUSED = 60 * 1000"
definition CACHE_TTL_ERROR :: int where "CACHE_TTL_ERROR = 30 * 1000"

text \<open>
  \<open>globalCache\<close> maps a key to \<open>{ data, timestamp }\<close>. Timestamps are \<open>Date.now()\<close>,
  integer milliseconds. The flag \<open>isPlaying\<close> is a boolean: it is what the handlers
  of this repository put in \<open>is_playing\<close>.
\<close>

record cache_entry =
  data :: json
  timestamp :: int

type_synonym global_cache = "string \<rightharpoonup> cache_entry"

text \<open>The template literal \<open>`${url}-${isPlaying}`\<close>.\<close>

definition cacheKey :: "string \<Rightarrow> bool \<Rightarrow> string" where
  "cacheKey url isPlaying = url @ ''-'' @ (if isPlaying then ''true'' else ''false'')"

text \<open>
  \<open>getCachedData(url, isPlaying)\<close> at time \<open>now\<close>: the data or \<open>null\<close> (\<open>None\<close>), and
  the cache as the call leaves it.
\<close>

definition getCachedData :: "global_cache \<Rightarrow> int \<Rightarrow> string \<Rightarrow> bool \<Rightarrow> json option \<times> global_cache" where
  "getCachedData globalCache now url isPlaying =
     (case globalCache (cacheKey url isPlaying) of
        None \<Rightarrow> (None, globalCache)
      | Some cached \<Rightarrow>
          (let ttl = (if isPlaying then CACHE_TTL_PLAYING else CACHE_TTL_PAUSED) in
           if now - timestamp cached > ttl
           then (None, globalCache(cacheKey url isPlaying := None))
           else (Some (data cached), globalCache)))"

definition setCachedData :: "global_cache \<Rightarrow> int \<Rightarrow> string \<Rightarrow> bool \<Rightarrow> json \<Rightarrow> global_cache" where
  "setCachedData globalCache now url isPlaying d =
     globalCache(cacheKey url isPlaying \<mapsto> \<lparr>data = d, timestamp = now\<rparr>)"

subsection \<open>\<open>getRetryDelay\<close> and \<open>getPollingInterval\<close>\<close>

text \<open>
  \<open>getRetryDelay(attempt)\<close>. \<open>random\<close> is the double \<open>Math.random()\<close> returns, a
  number in \<open>[0, 1)\<close>. \<open>attempt\<close> is the retry count 0, 1, 2, ...: the product
  \<open>baseDelay * Math.pow(2, attempt)\<close> is then exact, a power of two times 1000, or is
  \<open>Infinity\<close> from attempt 1015 on, and \<open>Math.min\<close> with \<open>maxDelay\<close> gives the
  natural number below in both cases. The jitter and the sum are rounded.
\<close>

definition getRetryDelay :: "nat \<Rightarrow> double \<Rightarrow> double" where
  "getRetryDelay attempt random =
     (let baseDelay = 1000; maxDelay = 30000;
          delay = min (baseDelay * 2 ^ attempt) maxDelay
      in dadd (Double delay 0) (dmul random (Double 1000 0)))"

definition getPollingInterval :: "bool \<Rightarrow> bool \<Rightarrow> nat" where
  "getPollingInterval isPlaying hasError =
     (if hasError then 30000 else if isPlaying then 5000 else 60000)"

section \<open>HTTP: upstream responses and handler responses\<close>

text \<open>\<open>str.includes(pat)\<close>.\<close>

fun str_includes :: "string \<Rightarrow> string \<Rightarrow> bool" where
  "str_includes [] pat = (pat = [])"
| "str_includes (c # cs) pat = (prefix pat (c # cs) \<or> str_includes cs pat)"

text \<open>A number in a template literal: its decimal digits.\<close>

fun show_nat :: "nat \<Rightarrow> string" where
  "show_nat n =
     (if n < 10 then [''0123456789'' ! n]
      else show_nat (n div 10) @ [''0123456789'' ! (n mod 10)])"

declare show_nat.simps [simp del]

text \<open>
  What \<open>await fetch(...)\<close> gives: a rejection (\<open>Inl\<close>) or a response. Of a response
  the code reads \<open>status\<close>, \<open>ok\<close>, \<open>headers.get("Retry-After")\<close>, and the bodies
  \<open>await response.json()\<close> and \<open>await response.text()\<close>, either of which can reject.
  A body can be read once: \<open>json_result\<close> and \<open>text_result\<close> are what the one read
  of a routine gives, and for a reader that comes second to the same response they
  are the rejection.
\<close>

record fetch_response =
  status :: nat
  json_result :: "js_error + json"
  text_result :: "js_error + string"
  retry_after :: "string option"

definition ok :: "fetch_response \<Rightarrow> bool" where
  "ok r = (200 \<le> status r \<and> status r \<le> 299)"

type_synonym fetch_outcome = "js_error + fetch_response"

text \<open>\<open>process.env\<close>: a variable is \<open>undefined\<close> or a string; the empty string is falsy.\<close>

record spotify_env =
  SPOTIFY_CLIENT_ID :: "string option"
  SPOTIFY_CLIENT_SECRET :: "string option"
  SPOTIFY_REFRESH_TOKEN :: "string option"

definition env_truthy :: "string option \<Rightarrow> bool" where
  "env_truthy v = (case v of None \<Rightarrow> False | Some s \<Rightarrow> s \<noteq> [])"

text \<open>
  What a handler sends: the status, the headers set on \<open>res\<close>, and the value given to
  \<open>res.json\<close> (\<open>None\<close> after \<open>res.end()\<close>).
\<close>

record http_response =
  res_status :: nat
  res_headers :: "(string \<times> string) list"
  res_body :: "json option"

definition setHeader :: "string \<Rightarrow> string \<Rightarrow> (string \<times> string) list \<Rightarrow> (string \<times> string) list" where
  "setHeader name v hs = AList.update name v hs"

definition getHeader :: "http_response \<Rightarrow> string \<Rightarrow> string option" where
  "getHeader r name = map_of (res_headers r) name"

definition respond :: "nat \<Rightarrow> (string \<times> string) list \<Rightarrow> json \<Rightarrow> http_response" where
  "respond st hs b = \<lparr>res_status = st, res_headers = hs, res_body = Some b\<rparr>"

definition respond_end :: "nat \<Rightarrow> (string \<times> string) list \<Rightarrow> http_response" where
  "respond_end st hs = \<lparr>res_status = st, res_headers = hs, res_body = None\<rparr>"

text \<open>The two bodies every handler shares: \<open>{ is_playing: false }\<close> and
  \<open>{ error: msg, is_playing: false }\<close>.\<close>

definition not_playing :: json where
  "not_playing = JObj [(''is_playing'', JBool False)]"

definition error_body :: "string \<Rightarrow> json" where
  "error_body msg = JObj [(''error'', JStr msg), (''is_playing'', JBool False)]"

definition method_not_allowed :: json where
  "method_not_allowed = JObj [(''error'', JStr ''Method not allowed'')]"

text \<open>\<open>new Error(msg)\<close>.\<close>

definition Error :: "string \<Rightarrow> js_error" where
  "Error msg = JsError ''Error'' msg"

text \<open>
  \<open>artists?.map((artist) => artist.name)\<close>: \<open>undefined\<close> for a missing list, a
  TypeError for a value with no \<open>map\<close> and for a \<open>null\<close> element.
\<close>

definition artist_names :: "json \<Rightarrow> js_error + json" where
  "artist_names artists =
     (if nullish artists then Inr JUndefined
      else case artists of
        JArr xs \<Rightarrow>
          (case find nullish xs of
             Some artist \<Rightarrow> Inl (type_error artist ''name'')
           | None \<Rightarrow> Inr (JArr (map (\<lambda>artist. jprop artist ''name'') xs)))
      | _ \<Rightarrow> Inl (JsError ''TypeError'' ''artists.map is not a function''))"

text \<open>
  The catch clause the handlers and fetch routines share: a TypeError whose message
  mentions \<open>fetch\<close> is a network failure.
\<close>

definition is_network_error :: "js_error \<Rightarrow> bool" where
  "is_network_error error = (err_name error = ''TypeError'' \<and> str_includes (err_message error) ''fetch'')"

section \<open>The production handler\<close>

text \<open>
  The handler of the file headed "Spotify Now Playing API - Production Version"
  (\<^verbatim>\<open>src/unnamed/part_015\<close>, first file). It makes at most one call to the token
  endpoint and one to the playback endpoint; \<open>tokenFetch\<close> and \<open>apiFetch\<close> are what
  those calls give.
\<close>

definition production_headers :: "(string \<times> string) list" where
  "production_headers =
     setHeader ''X-XSS-Protection'' ''1; mode=block''
      (setHeader ''X-Frame-Options'' ''DENY''
       (setHeader ''X-Content-Type-Options'' ''nosniff''
        (setHeader ''Access-Control-Allow-Headers'' ''Content-Type, Authorization''
         (setHeader ''Access-Control-Allow-Methods'' ''GET, OPTIONS''
          (setHeader ''Access-Control-Allow-Origin'' ''*'' [])))))"

definition production_nowPlaying :: "json \<Rightarrow> json \<Rightarrow> js_error + json" where
  "production_nowPlaying apiData track =
     await (artist_names (jprop track ''artists'')) (\<lambda>names.
       Inr (JObj
          [(''is_playing'', JBool True),
           (''progress_ms'', or_else (jprop apiData ''progress_ms'') (JNum 0)),
           (''currently_playing_type'',
              or_else (jprop apiData ''currently_playing_type'') (JStr ''track'')),
           (''item'', JObj
              [(''name'', or_else (jprop track ''name'') (JStr ''Unknown Track'')),
               (''artists'', or_else names (JArr [JStr ''Unknown Artist''])),
               (''duration_ms'', or_else (jprop track ''duration_ms'') (JNum 0)),
               (''album'', JObj
                  [(''name'', or_else (opt_prop (jprop track ''album'') ''name'') (JStr ''Unknown Album'')),
                   (''images'', or_else (opt_prop (jprop track ''album'') ''images'') (JArr []))]),
               (''external_urls'', or_else (jprop track ''external_urls'') (JObj [])),
               (''id'', or_else (jprop track ''id'') JNull),
               (''type'', or_else (jprop track ''type'') (JStr ''track''))])]))"

text \<open>From the 204 check to the end of the \<open>try\<close> block.\<close>

definition production_playback :: "(string \<times> string) list \<Rightarrow> fetch_response \<Rightarrow> js_error + http_response" where
  "production_playback hs apiResponse =
     (if status apiResponse = 204
      then Inr (respond 200 (setHeader ''Cache-Control'' ''s-maxage=60, stale-while-revalidate'' hs) not_playing)
      else if status apiResponse \<ge> 400 \<and> status apiResponse < 500
      then Inr (respond 500 hs (error_body ''Spotify API error''))
      else if status apiResponse \<ge> 500
      then Inr (respond 500 hs (error_body ''Spotify API temporarily unavailable''))
      else if \<not> ok apiResponse
      then Inr (respond 500 hs (error_body ''Spotify API error''))
      else
        await (json_result apiResponse) (\<lambda>apiData.
        await (get_prop apiData ''is_playing'') (\<lambda>is_playing.
          if \<not> truthy is_playing
          then Inr (respond 200 (setHeader ''Cache-Control'' ''s-maxage=60, stale-while-revalidate'' hs) not_playing)
          else if \<not> truthy (jprop apiData ''item'')
          then Inr (respond 200 (setHeader ''Cache-Control'' ''s-maxage=60, stale-while-revalidate'' hs) not_playing)
          else if jprop (jprop apiData ''item'') ''type'' \<noteq> JStr ''track''
          then Inr (respond 200 (setHeader ''Cache-Control'' ''s-maxage=60, stale-while-revalidate'' hs) not_playing)
          else
            await (production_nowPlaying apiData (jprop apiData ''item'')) (\<lambda>nowPlaying.
              Inr (respond 200 (setHeader ''Cache-Control'' ''s-maxage=5, stale-while-revalidate'' hs) nowPlaying)))))"

text \<open>The \<open>try\<close> block: \<open>Inl\<close> is an exception on its way to the \<open>catch\<close>.\<close>

definition production_try :: "spotify_env \<Rightarrow> fetch_outcome \<Rightarrow> fetch_outcome \<Rightarrow> js_error + http_response" where
  "production_try env tokenFetch apiFetch =
     (if \<not> env_truthy (SPOTIFY_CLIENT_ID env) \<or> \<not> env_truthy (SPOTIFY_CLIENT_SECRET env)
         \<or> \<not> env_truthy (SPOTIFY_REFRESH_TOKEN env)
      then Inr (respond 500 production_headers (error_body ''Server configuration error''))
      else
        await tokenFetch (\<lambda>tokenResponse.
          if \<not> ok tokenResponse
          then Inr (respond 500 production_headers (error_body ''Authentication failed''))
          else
            await (json_result tokenResponse) (\<lambda>tokenData.
            await (get_prop tokenData ''access_token'') (\<lambda>access_token.
              if \<not> truthy access_token
              then Inr (respond 500 production_headers (error_body ''Authentication failed''))
              else
                await apiFetch (\<lambda>apiResponse.
                  production_playback production_headers apiResponse)))))"

definition production_catch :: "(string \<times> string) list \<Rightarrow> js_error \<Rightarrow> http_response" where
  "production_catch hs error =
     (if is_network_error error
      then respond 500 hs (error_body ''Network error connecting to Spotify'')
      else respond 500 hs (error_body ''Failed to fetch now playing''))"

definition now_playing_production :: "string \<Rightarrow> spotify_env \<Rightarrow> fetch_outcome \<Rightarrow> fetch_outcome \<Rightarrow> http_response" where
  "now_playing_production method env tokenFetch apiFetch =
     (if method = ''OPTIONS'' then respond_end 200 production_headers
      else if method \<noteq> ''GET'' then respond 405 production_headers method_not_allowed
      else case production_try env tokenFetch apiFetch of
        Inl error \<Rightarrow> production_catch production_headers error
      | Inr r \<Rightarrow> r)"

section \<open>The handler with environment validation\<close>

text \<open>
  \<open>nowPlayingHandler\<close> of \<^verbatim>\<open>src/api/spotify/now-playing-validated.js\<close>. The
  wrapper \<open>withEnvValidation\<close> calls it with \<open>req.validatedEnv\<close> set; the handler
  uses the variables only to build the token request. \<open>node_env\<close> is
  \<open>process.env.NODE_ENV\<close>.
\<close>

text \<open>
  \<open>parseInt(s)\<close>: leading white space, a sign, then decimal digits, or hexadecimal
  ones after \<open>0x\<close>; \<open>NaN\<close> without a digit, which \<open>res.json\<close> writes as \<open>null\<close>.
  The integer read becomes the nearest double, and \<open>Infinity\<close> from \<open>2^1024\<close> on,
  which \<open>res.json\<close> writes as \<open>null\<close> too.
\<close>

definition digit_val :: "char \<Rightarrow> nat option" where
  "digit_val c =
     (let n = (of_char c :: nat) in
      if 48 \<le> n \<and> n \<le> 57 then Some (n - 48)
      else if 97 \<le> n \<and> n \<le> 102 then Some (n - 87)
      else if 65 \<le> n \<and> n \<le> 70 then Some (n - 55)
      else None)"

definition is_digit_of :: "nat \<Rightarrow> char \<Rightarrow> bool" where
  "is_digit_of radix c = (case digit_val c of Some d \<Rightarrow> d < radix | None \<Rightarrow> False)"

definition digits_value :: "nat \<Rightarrow> string \<Rightarrow> json" where
  "digits_value radix s =
     (let ds = takeWhile (is_digit_of radix) s in
      if ds = [] then JNull
      else
        let n = mant (round_double (foldl (\<lambda>acc c. radix * acc + the (digit_val c)) 0 ds) 0)
        in if n < 2 ^ 1024 then JNum (int n) else JNull)"

definition negate :: "json \<Rightarrow> json" where
  "negate v = (case v of JNum n \<Rightarrow> JNum (- n) | _ \<Rightarrow> v)"

definition unsigned_value :: "string \<Rightarrow> json" where
  "unsigned_value s =
     (if prefix ''0x'' s \<or> prefix ''0X'' s then digits_value 16 (drop 2 s)
      else digits_value 10 s)"

definition parseInt :: "string \<Rightarrow> json" where
  "parseInt s =
     (let t = dropWhile (\<lambda>c. (of_char c :: nat) \<in> {9, 10, 11, 12, 13, 32}) s in
      case t of
        [] \<Rightarrow> JNull
      | c # cs \<Rightarrow>
          if c = CHR ''-'' then negate (unsigned_value cs)
          else if c = CHR ''+'' then unsigned_value cs
          else unsigned_value t)"

text \<open>\<open>headers.get("Retry-After") || d\<close>.\<close>

definition retry_after_or :: "fetch_response \<Rightarrow> string \<Rightarrow> string" where
  "retry_after_or r d = (case retry_after r of None \<Rightarrow> d | Some s \<Rightarrow> if s = [] then d else s)"

definition validated_playback :: "(string \<times> string) list \<Rightarrow> fetch_response \<Rightarrow> js_error + http_response" where
  "validated_playback hs apiResponse =
     (if status apiResponse = 204
      then Inr (respond 200 (setHeader ''Cache-Control'' ''s-maxage=60, stale-while-revalidate'' hs) not_playing)
      else if status apiResponse = 401
      then Inr (respond 500 hs (error_body ''Authentication error''))
      else if status apiResponse = 429
      then (let retryAfter = retry_after_or apiResponse ''60'' in
            Inr (respond 429 (setHeader ''Retry-After'' retryAfter hs)
              (JObj [(''error'', JStr ''Rate limited''),
                     (''retryAfter'', parseInt retryAfter),
                     (''is_playing'', JBool False)])))
      else if status apiResponse \<ge> 400 \<and> status apiResponse < 500
      then Inr (respond 500 hs (error_body ''Spotify API error''))
      else if status apiResponse \<ge> 500
      then Inr (respond 500 hs (error_body ''Spotify API temporarily unavailable''))
      else if \<not> ok apiResponse
      then Inr (respond 500 hs (error_body ''Spotify API error''))
      else
        await (json_result apiResponse) (\<lambda>apiData.
        await (get_prop apiData ''is_playing'') (\<lambda>is_playing.
          if \<not> truthy is_playing
          then Inr (respond 200 (setHeader ''Cache-Control'' ''s-maxage=60, stale-while-revalidate'' hs) not_playing)
          else if \<not> truthy (jprop apiData ''item'')
          then Inr (respond 200 (setHeader ''Cache-Control'' ''s-maxage=60, stale-while-revalidate'' hs) not_playing)
          else if jprop (jprop apiData ''item'') ''type'' \<noteq> JStr ''track''
          then Inr (respond 200 (setHeader ''Cache-Control'' ''s-maxage=60, stale-while-revalidate'' hs) not_playing)
          else
            await (production_nowPlaying apiData (jprop apiData ''item'')) (\<lambda>nowPlaying.
              Inr (respond 200 (setHeader ''Cache-Control'' ''s-maxage=5, stale-while-revalidate'' hs) nowPlaying)))))"

definition validated_try :: "string option \<Rightarrow> fetch_outcome \<Rightarrow> fetch_outcome \<Rightarrow> js_error + http_response" where
  "validated_try node_env tokenFetch apiFetch =
     await tokenFetch (\<lambda>tokenResponse.
       if \<not> ok tokenResponse
       then (if status tokenResponse = 400 \<or> status tokenResponse = 401
             then Inr (respond 500 production_headers
               (JObj [(''error'', JStr ''Authentication failed''),
                      (''message'', JStr ''Failed to refresh access token. The refresh token may be expired.''),
                      (''hint'', if node_env \<noteq> Some ''production''
                                 then JStr ''Run 'npm run spotify-auth' to generate a new refresh token''
                                 else JUndefined),
                      (''is_playing'', JBool False)]))
             else Inr (respond 500 production_headers (error_body ''Authentication failed'')))
       else
         await (json_result tokenResponse) (\<lambda>tokenData.
         await (get_prop tokenData ''access_token'') (\<lambda>access_token.
           if \<not> truthy access_token
           then Inr (respond 500 production_headers (error_body ''Authentication failed''))
           else
             await apiFetch (\<lambda>apiResponse.
               validated_playback production_headers apiResponse))))"

definition nowPlayingHandler :: "string \<Rightarrow> string option \<Rightarrow> fetch_outcome \<Rightarrow> fetch_outcome \<Rightarrow> http_response" where
  "nowPlayingHandler method node_env tokenFetch apiFetch =
     (if method = ''OPTIONS'' then respond_end 200 production_headers
      else if method \<noteq> ''GET'' then respond 405 production_headers method_not_allowed
      else case validated_try node_env tokenFetch apiFetch of
        Inl error \<Rightarrow> production_catch production_headers error
      | Inr r \<Rightarrow> r)"

section \<open>The first handler: \<^verbatim>\<open>src/api/spotify/now-playing.js\<close>\<close>

definition basic_headers :: "(string \<times> string) list" where
  "basic_headers =
     setHeader ''Access-Control-Allow-Headers'' ''Content-Type''
      (setHeader ''Access-Control-Allow-Methods'' ''GET, OPTIONS''
       (setHeader ''Access-Control-Allow-Origin'' ''*'' []))"

text \<open>\<open>getAccessToken\<close>: the parsed token response, or the error thrown.\<close>

definition getAccessToken_basic :: "fetch_outcome \<Rightarrow> js_error + json" where
  "getAccessToken_basic tokenFetch =
     await tokenFetch (\<lambda>response.
       if \<not> ok response
       then Inl (Error (''Token refresh failed: '' @ show_nat (status response)))
       else json_result response)"

text \<open>\<open>xs.map((artist) => artist.name)\<close> with no \<open>?.\<close>: a missing list throws too.\<close>

definition artist_names_strict :: "json \<Rightarrow> js_error + json" where
  "artist_names_strict artists =
     (if nullish artists then Inl (type_error artists ''map'') else artist_names artists)"

definition basic_nowPlaying :: "json \<Rightarrow> js_error + json" where
  "basic_nowPlaying d =
     await (get_prop (jprop d ''item'') ''name'') (\<lambda>name.
     await (artist_names_strict (jprop (jprop d ''item'') ''artists'')) (\<lambda>artists.
     await (get_prop (jprop (jprop d ''item'') ''album'') ''name'') (\<lambda>album_name.
       Inr (JObj
         [(''is_playing'', JBool True),
          (''progress_ms'', jprop d ''progress_ms''),
          (''item'', JObj
             [(''name'', name),
              (''artists'', artists),
              (''duration_ms'', jprop (jprop d ''item'') ''duration_ms''),
              (''album'', JObj
                 [(''name'', album_name),
                  (''images'', jprop (jprop (jprop d ''item'') ''album'') ''images'')]),
              (''external_urls'', jprop (jprop d ''item'') ''external_urls'')])]))))"

definition getNowPlaying_basic :: "fetch_outcome \<Rightarrow> fetch_outcome \<Rightarrow> js_error + json" where
  "getNowPlaying_basic tokenFetch apiFetch =
     await (getAccessToken_basic tokenFetch) (\<lambda>tokenData.
     await (get_prop tokenData ''access_token'') (\<lambda>access_token.
     await apiFetch (\<lambda>response.
       if status response = 204 \<or> status response > 400
       then Inr not_playing
       else if \<not> ok response
       then Inl (Error (''Spotify API error: '' @ show_nat (status response)))
       else
         await (json_result response) (\<lambda>d.
         await (get_prop d ''is_playing'') (\<lambda>is_playing.
           if \<not> truthy is_playing then Inr not_playing
           else basic_nowPlaying d)))))"

text \<open>\<open>!!v\<close> and \<open>v?.length\<close> of an environment variable.\<close>

definition env_length :: "string option \<Rightarrow> json" where
  "env_length v = (case v of None \<Rightarrow> JUndefined | Some s \<Rightarrow> JNum (int (length s)))"

definition debug_body :: "spotify_env \<Rightarrow> js_error \<Rightarrow> json" where
  "debug_body env error =
     JObj [(''error'', JStr ''Failed to fetch now playing''),
           (''is_playing'', JBool False),
           (''debug'', JObj
              [(''message'', JStr (err_message error)),
               (''has_client_id'', JBool (env_truthy (SPOTIFY_CLIENT_ID env))),
               (''has_client_secret'', JBool (env_truthy (SPOTIFY_CLIENT_SECRET env))),
               (''has_refresh_token'', JBool (env_truthy (SPOTIFY_REFRESH_TOKEN env))),
               (''client_id_length'', env_length (SPOTIFY_CLIENT_ID env)),
               (''client_secret_length'', env_length (SPOTIFY_CLIENT_SECRET env)),
               (''refresh_token_length'', env_length (SPOTIFY_REFRESH_TOKEN env))])]"

definition handler_basic :: "spotify_env \<Rightarrow> string \<Rightarrow> fetch_outcome \<Rightarrow> fetch_outcome \<Rightarrow> http_response" where
  "handler_basic env method tokenFetch apiFetch =
     (if method = ''OPTIONS'' then respond_end 200 basic_headers
      else if method \<noteq> ''GET'' then respond 405 basic_headers method_not_allowed
      else case getNowPlaying_basic tokenFetch apiFetch of
        Inr nowPlaying \<Rightarrow>
          respond 200 (setHeader ''Cache-Control'' ''s-maxage=10, stale-while-revalidate'' basic_headers) nowPlaying
      | Inl error \<Rightarrow> respond 500 basic_headers (debug_body env error))"

section \<open>The simplified TypeScript handler: \<^verbatim>\<open>src/api/spotify/now-playing-simple.ts\<close>\<close>

text \<open>The catch clause of the fetch routines: a network failure is rethrown as
  a plain error, anything else as it is.\<close>

definition rethrow :: "js_error \<Rightarrow> js_error" where
  "rethrow error =
     (if is_network_error error then Error ''Unable to connect to Spotify - network error''
      else error)"

fun try_catch :: "js_error + 'a \<Rightarrow> js_error + 'a" where
  "try_catch (Inl error) = Inl (rethrow error)"
| "try_catch (Inr v) = Inr v"

definition getAccessToken_simple :: "fetch_outcome \<Rightarrow> js_error + json" where
  "getAccessToken_simple tokenFetch =
     await tokenFetch (\<lambda>response.
       if \<not> ok response
       then (if status response = 400
             then Inl (Error ''Invalid refresh token - please re-authorize your Spotify account'')
             else if status response = 401
             then Inl (Error ''Invalid client credentials - check your Spotify app configuration'')
             else Inl (Error (''Token refresh failed with status '' @ show_nat (status response))))
       else
         await (json_result response) (\<lambda>d. get_prop d ''access_token''))"

text \<open>The snapshot of a playing item, as the simplified and the retrying handler build it.\<close>

definition track_snapshot :: "json \<Rightarrow> json \<Rightarrow> js_error + json" where
  "track_snapshot d track =
     await (artist_names (jprop track ''artists'')) (\<lambda>names.
       Inr (JObj
         [(''is_playing'', JBool True),
          (''progress_ms'', or_else (jprop d ''progress_ms'') (JNum 0)),
          (''item'', JObj
             [(''name'', or_else (jprop track ''name'') (JStr ''Unknown Track'')),
              (''artists'', or_else names (JArr [JStr ''Unknown Artist''])),
              (''duration_ms'', or_else (jprop track ''duration_ms'') (JNum 0)),
              (''album'', JObj
                 [(''name'', or_else (opt_prop (jprop track ''album'') ''name'') (JStr ''Unknown Album'')),
                  (''images'', or_else (opt_prop (jprop track ''album'') ''images'') (JArr []))]),
              (''external_urls'', or_else (jprop track ''external_urls'') (JObj []))])]))"

definition getNowPlaying_simple :: "fetch_outcome \<Rightarrow> fetch_outcome \<Rightarrow> js_error + json" where
  "getNowPlaying_simple tokenFetch apiFetch =
     try_catch
      (await (getAccessToken_simple tokenFetch) (\<lambda>access_token.
       await apiFetch (\<lambda>response.
         if status response = 204 then Inr not_playing
         else if status response \<ge> 400 \<and> status response < 500
         then (if status response = 401
               then Inl (Error ''Spotify access token expired - authentication issue'')
               else if status response = 403
               then Inl (Error ''Insufficient Spotify permissions - check app scopes'')
               else if status response = 429
               then Inl (Error ''Spotify rate limit exceeded - retry later'')
               else Inl (Error (''Spotify API client error: '' @ show_nat (status response))))
         else if status response \<ge> 500
         then Inl (Error ''Spotify API temporarily unavailable'')
         else if \<not> ok response
         then Inl (Error (''Unexpected Spotify API error: '' @ show_nat (status response)))
         else
           await (json_result response) (\<lambda>d.
           await (get_prop d ''is_playing'') (\<lambda>is_playing.
             if \<not> truthy is_playing then Inr not_playing
             else if \<not> truthy (jprop d ''item'') then Inr not_playing
             else if jprop (jprop d ''item'') ''type'' = JStr ''track''
             then track_snapshot d (jprop d ''item'')
             else Inr not_playing)))))"

definition handler_simple :: "string \<Rightarrow> fetch_outcome \<Rightarrow> fetch_outcome \<Rightarrow> http_response" where
  "handler_simple method tokenFetch apiFetch =
     (if method = ''OPTIONS'' then respond_end 200 production_headers
      else if method \<noteq> ''GET'' then respond 405 production_headers method_not_allowed
      else case getNowPlaying_simple tokenFetch apiFetch of
        Inr nowPlaying \<Rightarrow>
          respond 200 (setHeader ''Cache-Control'' ''s-maxage=10, stale-while-revalidate'' production_headers) nowPlaying
      | Inl error \<Rightarrow> respond 500 production_headers (error_body ''Failed to fetch now playing''))"

section \<open>The retrying handler\<close>

text \<open>
  \<open>getAccessToken\<close>, \<open>getNowPlaying\<close> and \<open>handler\<close> of the second file of
  \<^verbatim>\<open>src/unnamed/part_015\<close>. Both fetch routines call themselves again after a
  server error, so the upstream is a script: the \<open>i\<close>-th call to an endpoint gets
  the \<open>i\<close>-th outcome. The state counts the calls made to each endpoint and lists
  the delays waited (\<open>setTimeout\<close>), in order.
\<close>

record upstream =
  token_script :: "nat \<Rightarrow> fetch_outcome"
  api_script :: "nat \<Rightarrow> fetch_outcome"
  token_calls :: nat
  api_calls :: nat
  sleeps :: "nat list"

definition fetch_token :: "upstream \<Rightarrow> fetch_outcome \<times> upstream" where
  "fetch_token w = (token_script w (token_calls w), w\<lparr>token_calls := token_calls w + 1\<rparr>)"

definition fetch_api :: "upstream \<Rightarrow> fetch_outcome \<times> upstream" where
  "fetch_api w = (api_script w (api_calls w), w\<lparr>api_calls := api_calls w + 1\<rparr>)"

definition sleep :: "nat \<Rightarrow> upstream \<Rightarrow> upstream" where
  "sleep ms w = w\<lparr>sleeps := sleeps w @ [ms]\<rparr>"

definition maxRetries :: nat where
  "maxRetries = 2"

text \<open>
  \<open>getAccessToken(retryCount)\<close>. The two \<open>return\<close>s hand a promise on without
  \<open>await\<close>, so their rejections pass the \<open>catch\<close> by; every \<open>throw\<close> of the
  \<open>try\<close> block goes through it.
\<close>

function getAccessToken :: "upstream \<Rightarrow> nat \<Rightarrow> (js_error + json) \<times> upstream" where
  "getAccessToken w retryCount =
     (case fetch_token w of
        (Inl e, w1) \<Rightarrow> (Inl (rethrow e), w1)
      | (Inr response, w1) \<Rightarrow>
          if \<not> ok response then
            (case text_result response of
               Inl e \<Rightarrow> (Inl (rethrow e), w1)
             | Inr errorData \<Rightarrow>
                 if status response = 400
                 then (Inl (rethrow (Error ''Invalid refresh token - please re-authorize your Spotify account'')), w1)
                 else if status response = 401
                 then (Inl (rethrow (Error ''Invalid client credentials - check your Spotify app configuration'')), w1)
                 else if status response \<ge> 500 \<and> retryCount < maxRetries
                 then getAccessToken (sleep (1000 * 2 ^ retryCount) w1) (retryCount + 1)
                 else (Inl (rethrow (Error (''Token refresh failed with status '' @ show_nat (status response)))), w1))
          else (json_result response, w1))"
  by pat_completeness auto
termination
  by (relation "measure (\<lambda>(w, retryCount). maxRetries - retryCount)") auto

declare getAccessToken.simps [simp del]

text \<open>The part of \<open>getNowPlaying\<close> that reads a response with a status under 400
  other than 204.\<close>

definition read_playback :: "fetch_response \<Rightarrow> js_error + json" where
  "read_playback response =
     (if \<not> ok response
      then Inl (rethrow (Error (''Unexpected Spotify API error: '' @ show_nat (status response))))
      else try_catch
        (await (json_result response) (\<lambda>d.
         await (get_prop d ''is_playing'') (\<lambda>is_playing.
           if \<not> truthy is_playing then Inr not_playing
           else if \<not> truthy (jprop d ''item'') then Inr not_playing
           else track_snapshot d (jprop d ''item'')))))"

text \<open>The errors thrown for a status from 400 to 499.\<close>

definition client_error :: "fetch_response \<Rightarrow> js_error" where
  "client_error response =
     (if status response = 401
      then Error ''Spotify access token expired - authentication issue''
      else if status response = 403
      then Error ''Insufficient Spotify permissions - check app scopes''
      else if status response = 429
      then Error (''Spotify rate limit exceeded - retry after '' @ retry_after_or response ''1'' @ ''s'')
      else Error (''Spotify API client error: '' @ show_nat (status response)))"

function getNowPlaying :: "upstream \<Rightarrow> nat \<Rightarrow> (js_error + json) \<times> upstream" where
  "getNowPlaying w retryCount =
     (case getAccessToken w 0 of
        (Inl e, w1) \<Rightarrow> (Inl (rethrow e), w1)
      | (Inr tokenData, w1) \<Rightarrow>
         (case get_prop tokenData ''access_token'' of
            Inl e \<Rightarrow> (Inl (rethrow e), w1)
          | Inr access_token \<Rightarrow>
             (case fetch_api w1 of
                (Inl e, w2) \<Rightarrow> (Inl (rethrow e), w2)
              | (Inr response, w2) \<Rightarrow>
                  if status response = 204 then (Inr not_playing, w2)
                  else if status response \<ge> 400 \<and> status response < 500
                  then (Inl (rethrow (client_error response)), w2)
                  else if status response \<ge> 500
                  then (if retryCount < maxRetries
                        then getNowPlaying (sleep (1000 * 2 ^ retryCount) w2) (retryCount + 1)
                        else (Inl (rethrow (Error ''Spotify API temporarily unavailable'')), w2))
                  else (read_playback response, w2))))"
  by pat_completeness auto
termination
  by (relation "measure (\<lambda>(w, retryCount). maxRetries - retryCount)") auto

declare getNowPlaying.simps [simp del]

text \<open>
  \<open>handler\<close>. \<open>corsMiddleware(req, res)\<close> runs first and is not modelled; \<open>cors\<close>
  is the list of headers it leaves on \<open>res\<close>, for a request it has not answered
  itself.
\<close>

definition handler :: "(string \<times> string) list \<Rightarrow> string \<Rightarrow> upstream \<Rightarrow> http_response \<times> upstream" where
  "handler cors method w =
     (if method \<noteq> ''GET'' then (respond 405 cors method_not_allowed, w)
      else case getNowPlaying w 0 of
        (Inr nowPlaying, w1) \<Rightarrow>
          (respond 200 (setHeader ''Cache-Control'' ''s-maxage=10, stale-while-revalidate'' cors) nowPlaying, w1)
      | (Inl error, w1) \<Rightarrow> (respond 500 cors (error_body ''Failed to fetch now playing''), w1))"

section \<open>The widget: request deduplication\<close>

text \<open>
  \<open>pendingRequests\<close> maps a key to the promise \<open>fetch(url, options).finally(...)\<close>.
  Promises are numbered as they are made. \<open>fetch_log\<close> lists the calls of \<open>fetch\<close>,
  each with the promise it made. Once its fetch has an outcome the promise goes
  through two steps, and other code can run between them: first the \<open>finally\<close>
  callback runs (\<open>finished\<close> then holds the outcome), later the promise itself takes
  the outcome (\<open>settled\<close>), and only then do the functions awaiting it go on.
  \<open>options\<close> stands for \<open>JSON.stringify(options)\<close>.
\<close>

record dedup =
  pendingRequests :: "string \<rightharpoonup> nat"
  fetch_log :: "(nat \<times> string \<times> string) list"
  finished :: "nat \<rightharpoonup> fetch_outcome"
  settled :: "nat \<rightharpoonup> fetch_outcome"
  next_promise :: nat

definition dedup_init :: dedup where
  "dedup_init = \<lparr>pendingRequests = Map.empty, fetch_log = [], finished = Map.empty,
                  settled = Map.empty, next_promise = 0\<rparr>"

definition dedupKey :: "string \<Rightarrow> string \<Rightarrow> string" where
  "dedupKey url options = url @ ''-'' @ options"

text \<open>\<open>deduplicatedFetch(url, options)\<close>: the promise the caller awaits, and the state.\<close>

definition deduplicatedFetch :: "dedup \<Rightarrow> string \<Rightarrow> string \<Rightarrow> nat \<times> dedup" where
  "deduplicatedFetch s url options =
     (let key = dedupKey url options in
      case pendingRequests s key of
        Some requestPromise \<Rightarrow> (requestPromise, s)
      | None \<Rightarrow>
          (let requestPromise = next_promise s in
           (requestPromise,
            s\<lparr>fetch_log := fetch_log s @ [(requestPromise, url, options)],
              pendingRequests := (pendingRequests s)(key \<mapsto> requestPromise),
              next_promise := requestPromise + 1\<rparr>)))"

text \<open>
  The fetch behind promise \<open>p\<close> has ended with \<open>outcome\<close> and the \<open>finally\<close>
  callback runs: it deletes the key it closed over. The callback of a promise runs
  once, and only if the promise was made.
\<close>

definition fetch_done :: "dedup \<Rightarrow> nat \<Rightarrow> fetch_outcome \<Rightarrow> dedup" where
  "fetch_done s p outcome =
     (case map_of (fetch_log s) p of
        None \<Rightarrow> s
      | Some (url, options) \<Rightarrow>
          if finished s p \<noteq> None then s
          else s\<lparr>pendingRequests := (pendingRequests s)(dedupKey url options := None),
                 finished := (finished s)(p \<mapsto> outcome)\<rparr>)"

text \<open>Promise \<open>p\<close>, whose callback has run, takes its outcome; what awaits it goes on
  with that outcome.\<close>

definition deliver :: "dedup \<Rightarrow> nat \<Rightarrow> dedup" where
  "deliver s p =
     (case finished s p of
        None \<Rightarrow> s
      | Some outcome \<Rightarrow> s\<lparr>settled := (settled s)(p \<mapsto> outcome)\<rparr>)"

text \<open>What happens on the page, in order. A call yields the promise returned.\<close>

datatype event = Call string string | FetchDone nat fetch_outcome | Deliver nat

fun step :: "dedup \<Rightarrow> event \<Rightarrow> dedup \<times> nat option" where
  "step s (Call url options) = (case deduplicatedFetch s url options of (p, s') \<Rightarrow> (s', Some p))"
| "step s (FetchDone p outcome) = (fetch_done s p outcome, None)"
| "step s (Deliver p) = (deliver s p, None)"

fun run :: "dedup \<Rightarrow> event list \<Rightarrow> dedup \<times> nat option list" where
  "run s [] = (s, [])"
| "run s (e # es) =
     (case step s e of (s1, r) \<Rightarrow> (case run s1 es of (s2, rs) \<Rightarrow> (s2, r # rs)))"

section \<open>The widget: fetching and rendering\<close>

text \<open>
  The state of the component: the React state \<open>track\<close>, \<open>loading\<close> and \<open>error\<close> (the
  message, \<open>None\<close> for \<open>null\<close>) and the refs. \<open>isPlayingRef\<close> holds
  \<open>jsonData.is_playing || false\<close>, a boolean for the bodies the handlers send; a flag
  of another type is kept by its truthiness, which is what the TTL and the polling
  interval read of it. \<open>timeoutRef\<close> holds the delay of the retry timer last set.
\<close>

record widget =
  track :: json
  loading :: bool
  errorMessage :: "string option"
  retryCountRef :: nat
  isPlayingRef :: bool
  timeoutRef :: "double option"

definition widget_init :: widget where
  "widget_init = \<lparr>track = JNull, loading = True, errorMessage = None, retryCountRef = 0,
                   isPlayingRef = False, timeoutRef = None\<rparr>"

text \<open>
  \<open>fetchData(isRetry)\<close> up to the \<open>await\<close>: a fresh cache entry ends the call
  (\<open>Some\<close> of the state it leaves), otherwise the request goes out (\<open>None\<close>).
\<close>

definition fetchData_start :: "widget \<Rightarrow> global_cache \<Rightarrow> int \<Rightarrow> string \<Rightarrow> bool \<Rightarrow> widget option \<times> global_cache" where
  "fetchData_start st globalCache now apiUrl isRetry =
     (case getCachedData globalCache now apiUrl (isPlayingRef st) of
        (Some cachedData, globalCache') \<Rightarrow>
          if truthy cachedData \<and> \<not> isRetry
          then (Some (st\<lparr>track := cachedData, errorMessage := None, retryCountRef := 0, loading := False\<rparr>),
                globalCache')
          else (None, globalCache')
      | (None, globalCache') \<Rightarrow> (None, globalCache'))"

text \<open>The error thrown for a response that is not \<open>ok\<close>.\<close>

definition widget_error :: "fetch_response \<Rightarrow> js_error" where
  "widget_error response =
     (if status response = 401
      then Error ''Spotify authentication failed - please check your API credentials''
      else if status response = 500
      then Error ''Spotify API temporarily unavailable - please try again later''
      else if status response = 429
      then Error (''Spotify rate limit exceeded - retry after '' @ retry_after_or response ''60'' @ ''s'')
      else Error (''Unable to connect to Spotify ('' @ show_nat (status response) @ '')''))"

text \<open>The \<open>catch\<close> and \<open>finally\<close> of \<open>fetchData\<close>; \<open>rnd\<close> is the value of
  \<open>Math.random()\<close> used if a retry is scheduled.\<close>

definition fetchData_catch :: "widget \<Rightarrow> double \<Rightarrow> js_error \<Rightarrow> widget" where
  "fetchData_catch st rnd err =
     st\<lparr>errorMessage := Some (err_message err),
        timeoutRef := (if retryCountRef st < 3 then Some (getRetryDelay (retryCountRef st) rnd)
                       else timeoutRef st),
        loading := False\<rparr>"

text \<open>\<open>fetchData\<close> from the \<open>await\<close> on: \<open>outcome\<close> is what the awaited
  \<open>deduplicatedFetch\<close> gave, \<open>now\<close> the time of the cache write.\<close>

definition fetchData_settled :: "widget \<Rightarrow> global_cache \<Rightarrow> int \<Rightarrow> string \<Rightarrow> double \<Rightarrow> fetch_outcome \<Rightarrow> widget \<times> global_cache" where
  "fetchData_settled st globalCache now apiUrl rnd outcome =
     (case await outcome (\<lambda>response.
             if \<not> ok response then Inl (widget_error response)
             else await (json_result response) (\<lambda>jsonData.
                  await (get_prop jsonData ''is_playing'') (\<lambda>is_playing.
                    Inr (jsonData, truthy is_playing)))) of
        Inl err \<Rightarrow> (fetchData_catch st rnd err, globalCache)
      | Inr (jsonData, playing) \<Rightarrow>
          (st\<lparr>isPlayingRef := playing, track := jsonData, errorMessage := None,
              retryCountRef := 0, loading := False\<rparr>,
           setCachedData globalCache now apiUrl playing jsonData))"

text \<open>The interval \<open>scheduleNextPoll\<close> sets its timer to.\<close>

definition scheduleNextPoll :: "widget \<Rightarrow> nat" where
  "scheduleNextPoll st =
     getPollingInterval (isPlayingRef st)
       (case errorMessage st of None \<Rightarrow> False | Some m \<Rightarrow> m \<noteq> [])"

definition isPodcast :: "json \<Rightarrow> bool" where
  "isPodcast t =
     (truthy t \<and>
      (jprop t ''currently_playing_type'' = JStr ''episode'' \<or>
       opt_prop (jprop t ''item'') ''type'' = JStr ''episode'' \<or>
       (truthy (jprop t ''item'') \<and> \<not> truthy (jprop (jprop t ''item'') ''artists''))))"

text \<open>What the component returns: one of its four layouts.\<close>

datatype view = LoadingView | ErrorView string | NotPlayingView | TrackView json

definition render :: "widget \<Rightarrow> view" where
  "render st =
     (if loading st then LoadingView
      else case errorMessage st of
        Some m \<Rightarrow>
          if m \<noteq> [] then ErrorView m
          else if \<not> truthy (opt_prop (track st) ''is_playing'') \<or> isPodcast (track st)
          then NotPlayingView else TrackView (track st)
      | None \<Rightarrow>
          if \<not> truthy (opt_prop (track st) ''is_playing'') \<or> isPodcast (track st)
          then NotPlayingView else TrackView (track st))"

text \<open>
  What \<open>fetch\<close> on the page gives for a response a handler sent: the body has been
  through \<open>JSON.stringify\<close> and \<open>JSON.parse\<close>, which drop the \<open>undefined\<close>
  properties of an object and turn an \<open>undefined\<close> array element into \<open>null\<close>.
  The \<open>Retry-After\<close> header is taken to be readable by the page.
\<close>

fun wire :: "json \<Rightarrow> json" where
  "wire (JObj kvs) = JObj (map (\<lambda>(k, v). (k, wire v)) (filter (\<lambda>(k, v). v \<noteq> JUndefined) kvs))"
| "wire (JArr xs) = JArr (map (\<lambda>v. if v = JUndefined then JNull else wire v) xs)"
| "wire v = v"

definition received :: "http_response \<Rightarrow> fetch_response" where
  "received r =
     \<lparr>status = res_status r,
      json_result = (case res_body r of
                       Some b \<Rightarrow> Inr (wire b)
                     | None \<Rightarrow> Inl (JsError ''SyntaxError'' ''Unexpected end of JSON input'')),
      text_result = Inr [],
      retry_after = getHeader r ''Retry-After''\<rparr>"

section \<open>The cache headers of the optimization test\<close>

text \<open>
  \<open>getCacheHeaders\<close> of the test script \<^verbatim>\<open>src/unnamed/part_011\<close> (test 6). No
  handler calls it.
\<close>

definition getCacheHeaders :: "bool \<Rightarrow> (string \<times> string) list" where
  "getCacheHeaders isPlaying =
     (let cacheMaxAge = (if isPlaying then 5 else 60) in
      [(''Cache-Control'',
          ''s-maxage='' @ show_nat cacheMaxAge @ '', stale-while-revalidate='' @ show_nat (cacheMaxAge * 2)),
       (''X-Playing-State'', if isPlaying then ''playing'' else ''paused'')])"

section \<open>Sample upstream responses\<close>

text \<open>Concrete responses for the instances evaluated below.\<close>

definition token_ok :: fetch_outcome where
  "token_ok = Inr \<lparr>status = 200, json_result = Inr (JObj [(''access_token'', JStr ''t'')]),
                    text_result = Inr [], retry_after = None\<rparr>"

definition api_status :: "nat \<Rightarrow> fetch_outcome" where
  "api_status n = Inr \<lparr>status = n, json_result = Inr (JObj []), text_result = Inr [],
                        retry_after = None\<rparr>"

definition api_429 :: fetch_outcome where
  "api_429 = Inr \<lparr>status = 429, json_result = Inr (JObj []), text_result = Inr [],
                   retry_after = Some ''60''\<rparr>"

definition api_json :: "json \<Rightarrow> fetch_outcome" where
  "api_json d = Inr \<lparr>status = 200, json_result = Inr d, text_result = Inr [],
                      retry_after = None\<rparr>"

definition playing_stub :: json where
  "playing_stub = JObj [(''is_playing'', JBool True)]"

definition env_ok :: spotify_env where
  "env_ok = \<lparr>SPOTIFY_CLIENT_ID = Some ''abc'', SPOTIFY_CLIENT_SECRET = Some ''secret'',
              SPOTIFY_REFRESH_TOKEN = Some ''refresh''\<rparr>"

definition env_longer :: spotify_env where
  "env_longer = \<lparr>SPOTIFY_CLIENT_ID = Some ''abcd'', SPOTIFY_CLIENT_SECRET = Some ''secret'',
                  SPOTIFY_REFRESH_TOKEN = Some ''refresh''\<rparr>"

text \<open>The playing track of the spec's scenario A, an episode, and a playing response
  with no item.\<close>

definition song_a :: json where
  "song_a = JObj
     [(''is_playing'', JBool True),
      (''progress_ms'', JNum 1000),
      (''item'', JObj
         [(''name'', JStr ''Song A''),
          (''artists'', JArr [JObj [(''name'', JStr ''Artist A'')]]),
          (''duration_ms'', JNum 200000),
          (''album'', JObj [(''name'', JStr ''Album A''), (''images'', JArr [])]),
          (''external_urls'', JObj []),
          (''type'', JStr ''track'')])]"

definition episode_a :: json where
  "episode_a = JObj
     [(''is_playing'', JBool True),
      (''progress_ms'', JNum 1000),
      (''currently_playing_type'', JStr ''episode''),
      (''item'', JObj
         [(''name'', JStr ''Episode A''),
          (''duration_ms'', JNum 200000),
          (''type'', JStr ''episode'')])]"

text \<open>An upstream that gives the same two outcomes at every call.\<close>

definition steady :: "fetch_outcome \<Rightarrow> fetch_outcome \<Rightarrow> upstream" where
  "steady tok api = \<lparr>token_script = (\<lambda>i. tok), api_script = (\<lambda>i. api),
                      token_calls = 0, api_calls = 0, sleeps = []\<rparr>"

section \<open>Failure classes\<close>

text \<open>
  Modelled from the spec: the Failure Classifier of section 4.2, which the
  repository does not have as a function (the fetch routines branch on the status
  where they stand). A failed call is a rejected \<open>fetch\<close> or a response that is not
  \<open>ok\<close>; its class follows the spec's table for the call's type.
\<close>

datatype classification =
  AuthError | PermissionError | RateLimited | UpstreamUnavailable | NetworkError | Unexpected

definition classify_refresh :: "nat \<Rightarrow> classification" where
  "classify_refresh st =
     (if st = 400 then AuthError
      else if st = 401 then PermissionError
      else if st = 429 then RateLimited
      else if st \<ge> 500 then UpstreamUnavailable
      else Unexpected)"

definition classify_playback :: "nat \<Rightarrow> classification" where
  "classify_playback st =
     (if st = 401 then AuthError
      else if st = 403 then PermissionError
      else if st = 429 then RateLimited
      else if st \<ge> 500 then UpstreamUnavailable
      else Unexpected)"

definition refresh_failure :: "fetch_outcome \<Rightarrow> classification option" where
  "refresh_failure outcome =
     (case outcome of
        Inl e \<Rightarrow> Some NetworkError
      | Inr r \<Rightarrow> if ok r then None else Some (classify_refresh (status r)))"

definition playback_failure :: "fetch_outcome \<Rightarrow> classification option" where
  "playback_failure outcome =
     (case outcome of
        Inl e \<Rightarrow> Some NetworkError
      | Inr r \<Rightarrow> if ok r then None else Some (classify_playback (status r)))"

definition retryable :: "classification set" where
  "retryable = {RateLimited, UpstreamUnavailable, NetworkError}"

definition terminal :: "classification set" where
  "terminal = {AuthError, PermissionError, Unexpected}"

text \<open>A token endpoint that fails twice with 500 before every success, in front of a
  playback endpoint that always answers 500.\<close>

definition flaky_token :: "nat \<Rightarrow> fetch_outcome" where
  "flaky_token i = (if i mod 3 = 2 then token_ok else api_status 500)"

definition flaky :: upstream where
  "flaky = \<lparr>token_script = flaky_token, api_script = (\<lambda>i. api_status 500),
             token_calls = 0, api_calls = 0, sleeps = []\<rparr>"

section \<open>When the fetch routines call themselves again\<close>

text \<open>
  The two conditions under which \<open>getAccessToken\<close> and \<open>getNowPlaying\<close> reach their
  recursive call, read off the branches that lead to it: the call just made was
  answered with a status of 500 or more and \<open>retryCount\<close> is below \<open>maxRetries\<close>
  (and, for the token, the error body could be read; for the playback, the token
  step before it succeeded).
\<close>

definition refresh_retried :: "upstream \<Rightarrow> nat \<Rightarrow> bool" where
  "refresh_retried w rc =
     (case token_script w (token_calls w) of
        Inl e \<Rightarrow> False
      | Inr r \<Rightarrow> 500 \<le> status r \<and> \<not> isl (text_result r) \<and> rc < maxRetries)"

definition playback_retried :: "upstream \<Rightarrow> nat \<Rightarrow> bool" where
  "playback_retried w rc =
     (case fst (getAccessToken w 0) of
        Inl e \<Rightarrow> False
      | Inr tokenData \<Rightarrow>
          \<not> nullish tokenData \<and>
          (case api_script w (api_calls w) of
             Inl e \<Rightarrow> False
           | Inr r \<Rightarrow> 500 \<le> status r \<and> rc < maxRetries))"

section \<open>Consistency of the deduplication state\<close>

text \<open>
  What holds of \<open>pendingRequests\<close> in every state the page can reach: promises are
  numbered below \<open>next_promise\<close> and made once; a registered promise was made by a
  \<open>fetch\<close> for the key it is registered under and its callback has not run; a
  promise whose callback has not run is still registered under its key; only a
  promise that was made has a callback that ran; a promise has no outcome other
  than the one its callback saw.
\<close>

definition dedup_inv :: "dedup \<Rightarrow> bool" where
  "dedup_inv s =
     ((\<forall>p u opts. (p, u, opts) \<in> set (fetch_log s) \<longrightarrow> p < next_promise s) \<and>
      distinct (map fst (fetch_log s)) \<and>
      (\<forall>k p. pendingRequests s k = Some p \<longrightarrow>
         finished s p = None \<and> (\<exists>u opts. (p, u, opts) \<in> set (fetch_log s) \<and> dedupKey u opts = k)) \<and>
      (\<forall>p u opts. (p, u, opts) \<in> set (fetch_log s) \<and> finished s p = None \<longrightarrow>
         pendingRequests s (dedupKey u opts) = Some p) \<and>
      (\<forall>p. finished s p \<noteq> None \<longrightarrow> p < next_promise s) \<and>
      (\<forall>p outcome. settled s p = Some outcome \<longrightarrow> finished s p = Some outcome))"

text \<open>The calls of \<open>fetch\<close> made for a key, and those that made a given promise.\<close>

definition fetches_for :: "dedup \<Rightarrow> string \<Rightarrow> (nat \<times> string \<times> string) list" where
  "fetches_for s k = filter (\<lambda>(p, u, opts). dedupKey u opts = k) (fetch_log s)"

definition fetches_of :: "dedup \<Rightarrow> nat \<Rightarrow> (nat \<times> string \<times> string) list" where
  "fetches_of s p = filter (\<lambda>entry. fst entry = p) (fetch_log s)"

text \<open>An event is the end of the fetch behind promise \<open>p\<close>.\<close>

fun ends :: "nat \<Rightarrow> event \<Rightarrow> bool" where
  "ends p (FetchDone q outcome) = (q = p)"
| "ends p (Call url options) = False"
| "ends p (Deliver q) = False"

text \<open>Three calls made while a request for \<open>u\<close> is in flight, one of them for another
  address, and a delivery that comes too early to do anything.\<close>

definition three_calls :: "event list" where
  "three_calls = [Call ''u'' ''{}'', Call ''v'' ''{}'', Deliver 0, Call ''u'' ''{}'']"

text \<open>What can follow the end of the first fetch: a call that starts a new one, the
  delivery of the first outcome, the end of the second fetch.\<close>

definition aftermath :: "event list" where
  "aftermath = [Call ''u'' ''{}'', Deliver 0, FetchDone 2 (api_status 204)]"

section \<open>Properties\<close>

subsection \<open>Rounding to a double\<close>

text \<open>The bit length of a numeral, for evaluation.\<close>

lemma bit_length_0 [simp]: "bit_length 0 = 0"
  by (simp add: bit_length.simps)

lemma bit_length_Suc_0 [simp]: "bit_length (Suc 0) = 1"
  by (simp add: bit_length.simps)

lemma bit_length_1 [simp]: "bit_length 1 = 1"
  by (simp add: bit_length.simps)

lemma bit_length_Bit0 [simp]: "bit_length (numeral (Num.Bit0 n)) = Suc (bit_length (numeral n))"
  by (subst bit_length.simps) simp

lemma bit_length_Bit1 [simp]: "bit_length (numeral (Num.Bit1 n)) = Suc (bit_length (numeral n))"
  by (subst bit_length.simps) simp

text \<open>
  The rounding on known sums and products: \<open>0.1 + 0.2\<close> is
  \<open>0.30000000000000004\<close>; \<open>2^53 + 1\<close> is \<open>2^53\<close> and \<open>2^53 + 2 + 1\<close> is \<open>2^53 + 4\<close>, the
  ties going to the even significand; half the smallest double is 0 and three
  halves of it are twice it.
\<close>

lemma round_double_examples:
  "dval (dadd (Double 3602879701896397 55) (Double 3602879701896397 54))
     = 1351079888211149 / 2 ^ 52 \<and>
   dadd (Double (2 ^ 53) 0) (Double 1 0) = Double (2 ^ 53) 0 \<and>
   dadd (Double (2 ^ 53 + 2) 0) (Double 1 0) = Double (2 ^ 53 + 4) 0 \<and>
   dmul (Double 1 1074) (Double 1 1) = Double 0 1074 \<and>
   dmul (Double 3 1074) (Double 1 1) = Double 2 1074"
  by (simp add: dadd_def dmul_def round_double_def dval_def)

text \<open>A number has at most \<open>n\<close> bits exactly when it is below \<open>2^n\<close>.\<close>

lemma bit_length_le_iff: "bit_length m \<le> n \<longleftrightarrow> m < 2 ^ n"
proof (induction m arbitrary: n rule: bit_length.induct)
  case (1 m)
  show ?case
  proof (cases "m = 0")
    case True
    then show ?thesis by simp
  next
    case False
    show ?thesis
    proof (cases n)
      case 0
      then show ?thesis using False by (subst bit_length.simps) simp
    next
      case (Suc n')
      have "bit_length (m div 2) \<le> n' \<longleftrightarrow> m div 2 < 2 ^ n'"
        using 1 [OF False] .
      moreover have "m div 2 < 2 ^ n' \<longleftrightarrow> m < 2 ^ Suc n'"
        by (simp add: div_less_iff_less_mult mult.commute)
      ultimately show ?thesis
        using False Suc by (subst bit_length.simps) simp
    qed
  qed
qed

lemma bit_length_lower: "m \<noteq> 0 \<Longrightarrow> 2 ^ (bit_length m - 1) \<le> m"
proof -
  assume m: "m \<noteq> 0"
  have p: "0 < bit_length m"
    using m bit_length_le_iff [of m 0] by simp
  have "(bit_length m \<le> bit_length m - 1) = (m < 2 ^ (bit_length m - 1))"
    by (rule bit_length_le_iff)
  with p show ?thesis by arith
qed

lemma dval_le: "mant d \<le> b * 2 ^ scale d \<Longrightarrow> dval d \<le> real b"
proof -
  assume "mant d \<le> b * 2 ^ scale d"
  then have "real (mant d) \<le> real (b * 2 ^ scale d)"
    by (simp only: of_nat_le_iff)
  then show ?thesis
    by (simp add: dval_def field_simps)
qed

lemma dval_ge: "b * 2 ^ scale d \<le> mant d \<Longrightarrow> real b \<le> dval d"
proof -
  assume "b * 2 ^ scale d \<le> mant d"
  then have "real (b * 2 ^ scale d) \<le> real (mant d)"
    by (simp only: of_nat_le_iff)
  then show ?thesis
    by (simp add: dval_def field_simps)
qed

lemma dval_less: "mant d < b * 2 ^ scale d \<Longrightarrow> dval d < real b"
proof -
  assume "mant d < b * 2 ^ scale d"
  then have "real (mant d) < real (b * 2 ^ scale d)"
    by (simp only: of_nat_less_iff)
  then show ?thesis
    by (simp add: dval_def field_simps)
qed

lemma dval_less_iff: "dval d < real b \<longleftrightarrow> mant d < b * 2 ^ scale d"
proof -
  have "real (mant d) < real (b * 2 ^ scale d) \<longleftrightarrow> mant d < b * 2 ^ scale d"
    by (simp only: of_nat_less_iff)
  then show ?thesis
    by (simp add: dval_def field_simps)
qed

text \<open>
  Rounding does not cross a double: a natural number below \<open>2^53\<close> that bounds the
  exact result bounds the rounded one.
\<close>

lemma round_up_remainder:
  fixes m :: nat
  assumes "\<not> (m mod 2 ^ k < 2 ^ (k - 1) \<or> (m mod 2 ^ k = 2 ^ (k - 1) \<and> even (m div 2 ^ k)))"
  shows "m div 2 ^ k * 2 ^ k < m"
proof -
  have "(0::nat) < 2 ^ (k - 1)" by simp
  then have "0 < m mod 2 ^ k" using assms by arith
  moreover have "m = m div 2 ^ k * 2 ^ k + m mod 2 ^ k"
    by (rule div_mult_mod_eq [symmetric])
  ultimately show ?thesis by arith
qed

lemma shift_split: "k \<le> s \<Longrightarrow> b * 2 ^ s = b * 2 ^ (s - k) * (2::nat) ^ k"
  by (simp add: power_add [symmetric])

lemma big_shift_impossible:
  assumes "s < bit_length m - 53" and "m \<le> b * 2 ^ s" and "b < 2 ^ 53"
  shows False
proof -
  have "53 + s < bit_length m" using assms(1) by arith
  moreover have "(bit_length m \<le> 53 + s) = (m < 2 ^ (53 + s))"
    by (rule bit_length_le_iff)
  ultimately have "\<not> m < 2 ^ (53 + s)" by arith
  then have a: "\<not> m < 2 ^ 53 * 2 ^ s" unfolding power_add .
  have "b * 2 ^ s < 2 ^ 53 * 2 ^ s" using assms(3) by (simp only: mult_less_cancel2) simp
  then show False using a assms(2) by linarith
qed

lemma round_double_le:
  assumes "m \<le> b * 2 ^ s" and "b < 2 ^ 53"
  shows "dval (round_double m s) \<le> real b"
proof -
  define k where "k = max (bit_length m - 53) (s - 1074)"
  define q where "q = m div 2 ^ k"
  define q' where "q' = (if m mod 2 ^ k < 2 ^ (k - 1) \<or> (m mod 2 ^ k = 2 ^ (k - 1) \<and> even q)
                         then q else q + 1)"
  have ks: "k \<le> s"
  proof (rule ccontr)
    assume "\<not> k \<le> s"
    then have "s < bit_length m - 53" by (simp add: k_def max_def split: if_splits)
    then show False using big_shift_impossible assms by blast
  qed
  have r: "round_double m s = (if k = 0 then Double m s else Double q' (s - k))"
    using ks unfolding q'_def q_def k_def round_double_def Let_def by simp
  show ?thesis
  proof (cases "k = 0")
    case True
    then show ?thesis using r assms(1) by (simp add: dval_le)
  next
    case False
    note split = shift_split [OF ks, of b]
    have "q' \<le> b * 2 ^ (s - k)"
    proof (cases "q' = q")
      case True
      have "q * 2 ^ k \<le> m" by (simp add: q_def)
      then have "q * 2 ^ k \<le> b * 2 ^ (s - k) * 2 ^ k" using assms(1) split by linarith
      then show ?thesis using True by simp
    next
      case False
      then have up: "q' = q + 1" by (simp add: q'_def split: if_splits)
      have "q * 2 ^ k < m"
        using False round_up_remainder [of m k] by (auto simp: q'_def q_def split: if_splits)
      then have "q * 2 ^ k < b * 2 ^ (s - k) * 2 ^ k" using assms(1) split by linarith
      then have "q < b * 2 ^ (s - k)" by simp
      then show ?thesis using up by simp
    qed
    then show ?thesis using r False by (simp add: dval_le)
  qed
qed

lemma round_double_ge:
  assumes "b * 2 ^ s \<le> m" and "b < 2 ^ 53"
  shows "real b \<le> dval (round_double m s)"
proof -
  define k where "k = max (bit_length m - 53) (s - 1074)"
  define q where "q = m div 2 ^ k"
  define q' where "q' = (if m mod 2 ^ k < 2 ^ (k - 1) \<or> (m mod 2 ^ k = 2 ^ (k - 1) \<and> even q)
                         then q else q + 1)"
  have qq: "q \<le> q'" by (simp add: q'_def)
  have r: "round_double m s =
             (if k = 0 then Double m s
              else if k \<le> s then Double q' (s - k) else Double (q' * 2 ^ (k - s)) 0)"
    unfolding q'_def q_def k_def round_double_def Let_def by simp
  show ?thesis
  proof (cases "k = 0")
    case True
    then show ?thesis using r assms(1) by (simp add: dval_ge)
  next
    case False
    show ?thesis
    proof (cases "k \<le> s")
      case True
      have "b * 2 ^ (s - k) * 2 ^ k \<le> m" using assms(1) shift_split [OF True, of b] by linarith
      then have "b * 2 ^ (s - k) \<le> q"
        unfolding q_def by (simp add: less_eq_div_iff_mult_less_eq)
      then have "b * 2 ^ (s - k) \<le> q'" using qq by simp
      then show ?thesis using r False True by (simp add: dval_ge)
    next
      case big: False
      then have kb: "k = bit_length m - 53" by (simp add: k_def max_def split: if_splits)
      have m0: "m \<noteq> 0" using kb False by (cases "m = 0") simp_all
      have "bit_length m - 1 = 52 + k" using kb False by arith
      then have "2 ^ (52 + k) \<le> m" using bit_length_lower [OF m0] by simp
      then have "2 ^ 52 * 2 ^ k \<le> m" unfolding power_add .
      then have "2 ^ 52 \<le> q"
        unfolding q_def by (simp only: less_eq_div_iff_mult_less_eq zero_less_power zero_less_numeral)
      then have "2 ^ 52 \<le> q'" using qq by linarith
      moreover have "(2::nat) \<le> 2 ^ (k - s)" using big by (cases "k - s") simp_all
      ultimately have "2 ^ 52 * 2 \<le> q' * 2 ^ (k - s)" by (rule mult_le_mono)
      then have "b \<le> q' * 2 ^ (k - s)" using assms(2) by simp
      then show ?thesis using r False big by (simp add: dval_ge)
    qed
  qed
qed

subsection \<open>Cache lifetime\<close>

lemma cacheKey_inj: "cacheKey u p = cacheKey u' p' \<longleftrightarrow> u = u' \<and> p = p'"
  by (auto simp: cacheKey_def append_eq_append_conv2 append_eq_Cons_conv Cons_eq_append_conv)

lemma getCachedData_after_write:
  "getCachedData (setCachedData c t url p d) now url p =
     (if now - t > (if p then 5000 else 60000)
      then (None, (setCachedData c t url p d)(cacheKey url p := None))
      else (Some d, setCachedData c t url p d))"
  by (simp add: getCachedData_def setCachedData_def CACHE_TTL_PLAYING_def CACHE_TTL_PAUSED_def)

text \<open>
  C2, as the code has it. An entry written with \<open>isPlaying = true\<close> is returned,
  and the cache left as it is, whenever \<open>now - timestamp \<le> 5000\<close>; it is a miss and
  the entry is deleted whenever \<open>now - timestamp > 5000\<close>. The same holds for an
  entry written with \<open>isPlaying = false\<close> and 60000 ms. The comparison is strict,
  so an entry is still fresh at exactly its lifetime.
\<close>

theorem cache_ttl_boundary:
  "(now - t \<le> 5000 \<longrightarrow>
      getCachedData (setCachedData c t url True d) now url True
        = (Some d, setCachedData c t url True d)) \<and>
   (now - t > 5000 \<longrightarrow>
      fst (getCachedData (setCachedData c t url True d) now url True) = None \<and>
      snd (getCachedData (setCachedData c t url True d) now url True) (cacheKey url True) = None) \<and>
   (now - t \<le> 60000 \<longrightarrow>
      getCachedData (setCachedData c t url False d) now url False
        = (Some d, setCachedData c t url False d)) \<and>
   (now - t > 60000 \<longrightarrow>
      fst (getCachedData (setCachedData c t url False d) now url False) = None \<and>
      snd (getCachedData (setCachedData c t url False d) now url False) (cacheKey url False) = None)"
  by (simp add: getCachedData_after_write)

theorem cache_ttl_boundary_witness:
  "getCachedData (setCachedData Map.empty 0 ''u'' True playing_stub) 5000 ''u'' True
     = (Some playing_stub, setCachedData Map.empty 0 ''u'' True playing_stub) \<and>
   fst (getCachedData (setCachedData Map.empty 0 ''u'' True playing_stub) 5001 ''u'' True) = None \<and>
   snd (getCachedData (setCachedData Map.empty 0 ''u'' True playing_stub) 5001 ''u'' True)
     (cacheKey ''u'' True) = None \<and>
   getCachedData (setCachedData Map.empty 0 ''u'' False not_playing) 60000 ''u'' False
     = (Some not_playing, setCachedData Map.empty 0 ''u'' False not_playing) \<and>
   fst (getCachedData (setCachedData Map.empty 0 ''u'' False not_playing) 60001 ''u'' False) = None \<and>
   snd (getCachedData (setCachedData Map.empty 0 ''u'' False not_playing) 60001 ''u'' False)
     (cacheKey ''u'' False) = None"
  using cache_ttl_boundary [of 5000 0 Map.empty "''u''" playing_stub]
        cache_ttl_boundary [of 5001 0 Map.empty "''u''" playing_stub]
        cache_ttl_boundary [of 60000 0 Map.empty "''u''" not_playing]
        cache_ttl_boundary [of 60001 0 Map.empty "''u''" not_playing]
  by simp

text \<open>
  C2 as stated fails at the boundary: an entry written at time 0 with
  \<open>isPlaying = true\<close> and read at time 5000 has \<open>now - timestamp \<ge> 5000\<close>, yet it is
  returned and stays in the cache; likewise at 60000 for \<open>isPlaying = false\<close>.
\<close>

theorem cache_expired_at_ttl_counterexample:
  "(5000::int) - 0 \<ge> 5000 \<and>
   fst (getCachedData (setCachedData Map.empty 0 ''u'' True playing_stub) 5000 ''u'' True)
     = Some playing_stub \<and>
   snd (getCachedData (setCachedData Map.empty 0 ''u'' True playing_stub) 5000 ''u'' True)
     (cacheKey ''u'' True) = Some \<lparr>data = playing_stub, timestamp = 0\<rparr> \<and>
   (60000::int) - 0 \<ge> 60000 \<and>
   fst (getCachedData (setCachedData Map.empty 0 ''u'' False not_playing) 60000 ''u'' False)
     = Some not_playing \<and>
   snd (getCachedData (setCachedData Map.empty 0 ''u'' False not_playing) 60000 ''u'' False)
     (cacheKey ''u'' False) = Some \<lparr>data = not_playing, timestamp = 0\<rparr>"
  by (simp add: getCachedData_def setCachedData_def CACHE_TTL_PLAYING_def CACHE_TTL_PAUSED_def)

subsection \<open>Polling interval\<close>

text \<open>The values of \<open>getPollingInterval\<close>.\<close>

lemma getPollingInterval_values:
  "getPollingInterval True False = 5000 \<and>
   getPollingInterval False False = 60000 \<and>
   getPollingInterval isPlaying True = 30000 \<and>
   (getPollingInterval isPlaying hasError = 5000 \<or>
    getPollingInterval isPlaying hasError = 60000 \<or>
    getPollingInterval isPlaying hasError = 30000)"
  by (simp add: getPollingInterval_def)







text \<open>
  A call of \<open>fetchData\<close> that ends at a fresh cache entry clears the error; the
  interval follows the playing state under which the entry was found.
\<close>

lemma scheduleNextPoll_after_cache_hit:
  assumes "fetchData_start st c now url isRetry = (Some st', c')"
  shows "errorMessage st' = None \<and>
         scheduleNextPoll st' = (if isPlayingRef st then 5000 else 60000)"
  using assms
  by (auto simp: fetchData_start_def scheduleNextPoll_def getPollingInterval_def
      split: prod.splits option.splits if_splits)

subsection \<open>Responses of the handlers\<close>

lemmas handler_defs =
  ok_def get_prop_def respond_def respond_end_def getHeader_def setHeader_def
  production_headers_def basic_headers_def not_playing_def error_body_def

text \<open>\<open>parseInt\<close> on a few strings; \<open>2^53 + 1\<close> is read as \<open>2^53\<close>.\<close>

lemma parseInt_examples:
  "parseInt ''60'' = JNum 60 \<and>
   parseInt ''  -12px'' = JNum (- 12) \<and>
   parseInt ''0x1f'' = JNum 31 \<and>
   parseInt ''soon'' = JNull \<and>
   parseInt ''9007199254740993'' = JNum 9007199254740992"
  by (simp add: parseInt_def unsigned_value_def digits_value_def is_digit_of_def digit_val_def
      negate_def round_double_def Let_def)

lemma truthy_not_nullish: "truthy v \<Longrightarrow> \<not> nullish v"
  by (cases v) auto

lemma jprop_truthy_not_nullish: "truthy (jprop v k) \<Longrightarrow> \<not> nullish v"
  by (cases v) auto

lemma ok_status: "ok r \<Longrightarrow> \<not> 400 \<le> status r"
  by (simp add: ok_def)

lemma production_not_track:
  assumes "env_truthy (SPOTIFY_CLIENT_ID env)" "env_truthy (SPOTIFY_CLIENT_SECRET env)"
    "env_truthy (SPOTIFY_REFRESH_TOKEN env)"
    and "tokenFetch = Inr tr" "ok tr" "json_result tr = Inr td" "truthy (jprop td ''access_token'')"
    and "apiFetch = Inr ar" "ok ar" "status ar \<noteq> 204" "json_result ar = Inr d"
    and "truthy (jprop d ''is_playing'')"
    and "jprop (jprop d ''item'') ''type'' \<noteq> JStr ''track''"
  shows "now_playing_production ''GET'' env tokenFetch apiFetch =
           respond 200 (setHeader ''Cache-Control'' ''s-maxage=60, stale-while-revalidate'' production_headers)
             not_playing"
proof -
  have td: "\<not> nullish td" using assms(7) by (rule jprop_truthy_not_nullish)
  have d: "\<not> nullish d" using assms(12) by (rule jprop_truthy_not_nullish)
  have st: "\<not> 400 \<le> status ar" using assms(9) by (rule ok_status)
  show ?thesis
    using assms td d st
    by (simp add: now_playing_production_def production_try_def production_playback_def get_prop_def)
qed

lemma widget_not_playing:
  assumes "res_status r = 200" "res_body r = Some not_playing"
  shows "render (fst (fetchData_settled st c now url rnd (Inr (received r)))) = NotPlayingView"
  using assms
  by (simp add: fetchData_settled_def received_def ok_def not_playing_def get_prop_def render_def
      opt_prop_def)

text \<open>
  C6. The production handler, on a GET with its configuration present and the
  token refreshed, receives a playback response with a body whose \<open>is_playing\<close> is
  true and whose item's type is not \<open>"track"\<close> (an episode; an ad, which has no
  item). It answers 200 with the body \<open>{ is_playing: false }\<close>, and the widget that
  receives that answer shows its not-playing layout.
\<close>

theorem episode_reported_not_playing:
  assumes "env_truthy (SPOTIFY_CLIENT_ID env)" "env_truthy (SPOTIFY_CLIENT_SECRET env)"
    "env_truthy (SPOTIFY_REFRESH_TOKEN env)"
    and "tokenFetch = Inr tr" "ok tr" "json_result tr = Inr td" "truthy (jprop td ''access_token'')"
    and "apiFetch = Inr ar" "ok ar" "status ar \<noteq> 204" "json_result ar = Inr d"
    and "truthy (jprop d ''is_playing'')"
    and "jprop (jprop d ''item'') ''type'' \<noteq> JStr ''track''"
  shows "res_status (now_playing_production ''GET'' env tokenFetch apiFetch) = 200 \<and>
         res_body (now_playing_production ''GET'' env tokenFetch apiFetch) = Some not_playing \<and>
         render (fst (fetchData_settled st c now url rnd
           (Inr (received (now_playing_production ''GET'' env tokenFetch apiFetch)))))
           = NotPlayingView"
proof -
  have r: "now_playing_production ''GET'' env tokenFetch apiFetch =
           respond 200 (setHeader ''Cache-Control'' ''s-maxage=60, stale-while-revalidate'' production_headers)
             not_playing"
    using assms by (rule production_not_track)
  have s: "res_status (now_playing_production ''GET'' env tokenFetch apiFetch) = 200"
    and b: "res_body (now_playing_production ''GET'' env tokenFetch apiFetch) = Some not_playing"
    by (simp_all add: r respond_def)
  from s b widget_not_playing [OF s b] show ?thesis by blast
qed

theorem episode_reported_not_playing_witness:
  "res_status (now_playing_production ''GET'' env_ok token_ok (api_json episode_a)) = 200 \<and>
   res_body (now_playing_production ''GET'' env_ok token_ok (api_json episode_a)) = Some not_playing \<and>
   render (fst (fetchData_settled widget_init Map.empty 0 ''u'' (Double 0 0)
     (Inr (received (now_playing_production ''GET'' env_ok token_ok (api_json episode_a))))))
     = NotPlayingView"
  using episode_reported_not_playing [of env_ok token_ok
      "\<lparr>status = 200, json_result = Inr (JObj [(''access_token'', JStr ''t'')]),
         text_result = Inr [], retry_after = None\<rparr>"
      "JObj [(''access_token'', JStr ''t'')]"
      "api_json episode_a"
      "\<lparr>status = 200, json_result = Inr episode_a, text_result = Inr [], retry_after = None\<rparr>"
      episode_a widget_init Map.empty 0 "''u''" "Double 0 0"]
  by (simp add: env_ok_def env_truthy_def token_ok_def api_json_def episode_a_def ok_def)

text \<open>
  The retrying handler and the first handler do not look at the item's type: for
  the same episode the retrying handler answers with \<open>is_playing: true\<close>, and the
  widget, finding neither a type nor a missing artists list, shows the track layout.
\<close>

lemma retrying_handler_episode_eval:
  "res_status (fst (handler [] ''GET'' (steady token_ok (api_json episode_a)))) = 200 \<and>
   res_body (fst (handler [] ''GET'' (steady token_ok (api_json episode_a)))) =
     Some (JObj
       [(''is_playing'', JBool True),
        (''progress_ms'', JNum 1000),
        (''item'', JObj
           [(''name'', JStr ''Episode A''),
            (''artists'', JArr [JStr ''Unknown Artist'']),
            (''duration_ms'', JNum 200000),
            (''album'', JObj [(''name'', JStr ''Unknown Album''), (''images'', JArr [])]),
            (''external_urls'', JObj [])])]) \<and>
   render (fst (fetchData_settled widget_init Map.empty 0 ''u'' (Double 0 0)
     (Inr (received (fst (handler [] ''GET'' (steady token_ok (api_json episode_a))))))))
     \<noteq> NotPlayingView"
  by (simp add: handler_def getNowPlaying.simps getAccessToken.simps fetch_token_def fetch_api_def
      steady_def token_ok_def api_json_def episode_a_def read_playback_def track_snapshot_def
      artist_names_def or_else_def opt_prop_def received_def fetchData_settled_def render_def
      isPodcast_def widget_init_def handler_defs)

text \<open>
  C10. On a GET with the token refreshed, a playback response with status 200
  whose body has a true \<open>is_playing\<close> and no item makes the production handler, the
  validating handler and the simplified TypeScript handler each answer 200 with
  the body \<open>{ is_playing: false }\<close>.
\<close>

theorem playing_without_item:
  assumes "env_truthy (SPOTIFY_CLIENT_ID env)" "env_truthy (SPOTIFY_CLIENT_SECRET env)"
    "env_truthy (SPOTIFY_REFRESH_TOKEN env)"
    and "tokenFetch = Inr tr" "ok tr" "json_result tr = Inr td" "truthy (jprop td ''access_token'')"
    and "apiFetch = Inr ar" "status ar = 200" "json_result ar = Inr d"
    and "truthy (jprop d ''is_playing'')"
    and "\<not> truthy (jprop d ''item'')"
  shows "res_status (now_playing_production ''GET'' env tokenFetch apiFetch) = 200 \<and>
         res_body (now_playing_production ''GET'' env tokenFetch apiFetch) = Some not_playing \<and>
         res_status (nowPlayingHandler ''GET'' node_env tokenFetch apiFetch) = 200 \<and>
         res_body (nowPlayingHandler ''GET'' node_env tokenFetch apiFetch) = Some not_playing \<and>
         res_status (handler_simple ''GET'' tokenFetch apiFetch) = 200 \<and>
         res_body (handler_simple ''GET'' tokenFetch apiFetch) = Some not_playing"
proof -
  have td: "\<not> nullish td" using assms(7) by (rule jprop_truthy_not_nullish)
  have d: "\<not> nullish d" using assms(11) by (rule jprop_truthy_not_nullish)
  have ok: "ok ar" using assms(9) by (simp add: ok_def)
  have p: "now_playing_production ''GET'' env tokenFetch apiFetch =
           respond 200 (setHeader ''Cache-Control'' ''s-maxage=60, stale-while-revalidate'' production_headers)
             not_playing"
    using assms td d ok
    by (simp add: now_playing_production_def production_try_def production_playback_def get_prop_def)
  have v: "nowPlayingHandler ''GET'' node_env tokenFetch apiFetch =
           respond 200 (setHeader ''Cache-Control'' ''s-maxage=60, stale-while-revalidate'' production_headers)
             not_playing"
    using assms td d ok
    by (simp add: nowPlayingHandler_def validated_try_def validated_playback_def get_prop_def)
  have s: "handler_simple ''GET'' tokenFetch apiFetch =
           respond 200 (setHeader ''Cache-Control'' ''s-maxage=10, stale-while-revalidate'' production_headers)
             not_playing"
    using assms td d ok
    by (simp add: handler_simple_def getNowPlaying_simple_def getAccessToken_simple_def get_prop_def)
  show ?thesis by (simp add: p v s respond_def)
qed

theorem playing_without_item_witness:
  "res_status (now_playing_production ''GET'' env_ok token_ok (api_json playing_stub)) = 200 \<and>
   res_body (now_playing_production ''GET'' env_ok token_ok (api_json playing_stub)) = Some not_playing \<and>
   res_status (nowPlayingHandler ''GET'' None token_ok (api_json playing_stub)) = 200 \<and>
   res_body (nowPlayingHandler ''GET'' None token_ok (api_json playing_stub)) = Some not_playing \<and>
   res_status (handler_simple ''GET'' token_ok (api_json playing_stub)) = 200 \<and>
   res_body (handler_simple ''GET'' token_ok (api_json playing_stub)) = Some not_playing"
  using playing_without_item [of env_ok token_ok
      "\<lparr>status = 200, json_result = Inr (JObj [(''access_token'', JStr ''t'')]),
         text_result = Inr [], retry_after = None\<rparr>"
      "JObj [(''access_token'', JStr ''t'')]"
      "api_json playing_stub"
      "\<lparr>status = 200, json_result = Inr playing_stub, text_result = Inr [], retry_after = None\<rparr>"
      playing_stub None]
  by (simp add: env_ok_def env_truthy_def token_ok_def api_json_def playing_stub_def ok_def)

text \<open>
  C8, evaluated. For the playing track of scenario A the production handler sends
  \<open>Cache-Control: s-maxage=5, stale-while-revalidate\<close>, and for an upstream 204
  \<open>s-maxage=60, stale-while-revalidate\<close>: the second directive has no value, and
  there is no \<open>X-Playing-State\<close> header. The first handler sends \<open>s-maxage=10\<close>
  in both states.
\<close>

theorem cache_headers_eval:
  "getHeader (now_playing_production ''GET'' env_ok token_ok (api_json song_a)) ''Cache-Control''
     = Some ''s-maxage=5, stale-while-revalidate'' \<and>
   getHeader (now_playing_production ''GET'' env_ok token_ok (api_json song_a)) ''X-Playing-State'' = None \<and>
   getHeader (now_playing_production ''GET'' env_ok token_ok (api_status 204)) ''Cache-Control''
     = Some ''s-maxage=60, stale-while-revalidate'' \<and>
   getHeader (now_playing_production ''GET'' env_ok token_ok (api_status 204)) ''X-Playing-State'' = None \<and>
   getHeader (handler_basic env_ok ''GET'' token_ok (api_json song_a)) ''Cache-Control''
     = Some ''s-maxage=10, stale-while-revalidate'' \<and>
   getHeader (handler_basic env_ok ''GET'' token_ok (api_status 204)) ''Cache-Control''
     = Some ''s-maxage=10, stale-while-revalidate'' \<and>
   getHeader (handler_basic env_ok ''GET'' token_ok (api_status 204)) ''X-Playing-State'' = None"
  by (simp add: now_playing_production_def production_try_def production_playback_def
      production_nowPlaying_def handler_basic_def getNowPlaying_basic_def getAccessToken_basic_def
      basic_nowPlaying_def artist_names_def artist_names_strict_def or_else_def opt_prop_def
      env_ok_def token_ok_def api_json_def api_status_def song_a_def env_truthy_def handler_defs)

text \<open>
  The headers C8 describes are those of \<open>getCacheHeaders\<close> in the test script; the
  production handler never sets \<open>X-Playing-State\<close>, whatever the request and the
  upstream's answers.
\<close>

lemma getCacheHeaders_values:
  "getCacheHeaders True =
     [(''Cache-Control'', ''s-maxage=5, stale-while-revalidate=10''), (''X-Playing-State'', ''playing'')] \<and>
   getCacheHeaders False =
     [(''Cache-Control'', ''s-maxage=60, stale-while-revalidate=120''), (''X-Playing-State'', ''paused'')]"
  by (simp add: getCacheHeaders_def show_nat.simps)

lemma production_headers_X: "map_of production_headers ''X-Playing-State'' = None"
  by (simp add: production_headers_def setHeader_def)

lemma production_playback_no_state_header:
  "production_playback production_headers ar = Inr r \<Longrightarrow> getHeader r ''X-Playing-State'' = None"
  by (cases "json_result ar"; cases "get_prop (projr (json_result ar)) ''is_playing''";
      cases "production_nowPlaying (projr (json_result ar)) (jprop (projr (json_result ar)) ''item'')")
     (auto simp: production_playback_def getHeader_def respond_def setHeader_def production_headers_def
        split: if_splits)

lemma production_no_state_header:
  "getHeader (now_playing_production method env tokenFetch apiFetch) ''X-Playing-State'' = None"
proof -
  have c: "getHeader (production_catch production_headers e) ''X-Playing-State'' = None" for e
    by (simp add: production_catch_def getHeader_def respond_def production_headers_X)
  have t: "production_try env tokenFetch apiFetch = Inr r \<Longrightarrow> getHeader r ''X-Playing-State'' = None" for r
    unfolding production_try_def
    apply (cases tokenFetch; cases apiFetch;
        cases "json_result (projr tokenFetch)";
        cases "get_prop (projr (json_result (projr tokenFetch))) ''access_token''")
    by (auto simp: getHeader_def respond_def production_headers_X
        dest: production_playback_no_state_header split: if_splits)
  show ?thesis
  proof (cases "production_try env tokenFetch apiFetch")
    case (Inl e)
    then show ?thesis
      using c [of e]
      by (simp add: now_playing_production_def respond_def respond_end_def getHeader_def
          production_headers_X)
  next
    case (Inr r)
    then show ?thesis
      using t [of r]
      by (simp add: now_playing_production_def respond_def respond_end_def getHeader_def
          production_headers_X)
  qed
qed

text \<open>
  C9, evaluated. The token endpoint answers 400. The first handler answers 500 with
  a body that has a third member, \<open>debug\<close>, holding the error's message, whether each
  credential is set, and the length of each. Two environments that differ only in
  the length of the client id get different bodies.
\<close>

theorem debug_body_leak_eval:
  "res_status (handler_basic env_ok ''GET'' (api_status 400) (api_status 204)) = 500 \<and>
   res_status (handler_basic env_longer ''GET'' (api_status 400) (api_status 204)) = 500 \<and>
   res_body (handler_basic env_ok ''GET'' (api_status 400) (api_status 204)) =
     Some (JObj [(''error'', JStr ''Failed to fetch now playing''),
                 (''is_playing'', JBool False),
                 (''debug'', JObj
                    [(''message'', JStr ''Token refresh failed: 400''),
                     (''has_client_id'', JBool True),
                     (''has_client_secret'', JBool True),
                     (''has_refresh_token'', JBool True),
                     (''client_id_length'', JNum 3),
                     (''client_secret_length'', JNum 6),
                     (''refresh_token_length'', JNum 7)])]) \<and>
   res_body (handler_basic env_ok ''GET'' (api_status 400) (api_status 204))
     \<noteq> res_body (handler_basic env_longer ''GET'' (api_status 400) (api_status 204))"
  by (simp add: handler_basic_def getNowPlaying_basic_def getAccessToken_basic_def debug_body_def
      env_length_def env_truthy_def env_ok_def env_longer_def api_status_def Error_def
      show_nat.simps handler_defs)

text \<open>
  The retrying handler's answer to a failure is the same whatever the failure and
  whatever the credentials: status 500 and the two-member body.
\<close>

lemma handler_failure_body:
  assumes "fst (getNowPlaying w 0) = Inl e"
  shows "fst (handler cors ''GET'' w) = respond 500 cors (error_body ''Failed to fetch now playing'')"
  using assms by (cases "getNowPlaying w 0") (simp add: handler_def)

subsection \<open>Retries of the fetch routines\<close>

lemma rethrow_Error [simp]: "rethrow (Error m) = Error m"
  by (simp add: rethrow_def is_network_error_def Error_def)

lemma getAccessToken_frame:
  "token_script (snd (getAccessToken w rc)) = token_script w \<and>
   api_script (snd (getAccessToken w rc)) = api_script w \<and>
   api_calls (snd (getAccessToken w rc)) = api_calls w"
proof (induction w rc rule: getAccessToken.induct)
  case (1 w retryCount)
  show ?case
    apply (subst (1 2 3) getAccessToken.simps)
    using 1
    by (auto simp: fetch_token_def sleep_def split: sum.splits prod.splits)
qed


lemma getAccessToken_again:
  assumes "refresh_retried w rc"
  shows "getAccessToken w rc =
           getAccessToken (sleep (1000 * 2 ^ rc) (w\<lparr>token_calls := token_calls w + 1\<rparr>)) (rc + 1)"
  using assms
  apply (subst getAccessToken.simps)
  by (auto simp: refresh_retried_def fetch_token_def ok_def split: sum.splits)

lemma getAccessToken_once:
  assumes "\<not> refresh_retried w rc"
  shows "token_calls (snd (getAccessToken w rc)) = token_calls w + 1 \<and>
         sleeps (snd (getAccessToken w rc)) = sleeps w"
  using assms
  apply (subst (1 2) getAccessToken.simps)
  by (auto simp: refresh_retried_def fetch_token_def ok_def split: sum.splits)

lemma getAccessToken_calls:
  "token_calls w < token_calls (snd (getAccessToken w rc)) \<and>
   token_calls (snd (getAccessToken w rc)) \<le> token_calls w + 1 + (maxRetries - rc)"
proof (induction w rc rule: getAccessToken.induct)
  case (1 w retryCount)
  show ?case
  proof (cases "refresh_retried w retryCount")
    case False
    then show ?thesis using getAccessToken_once [OF False] by simp
  next
    case True
    then obtain r t where r: "token_script w (token_calls w) = Inr r" "500 \<le> status r"
      "text_result r = Inr t" "retryCount < maxRetries"
      by (cases "token_script w (token_calls w)"; cases "text_result (projr (token_script w (token_calls w)))")
         (auto simp: refresh_retried_def)
    have nok: "\<not> ok r" using r(2) by (simp add: ok_def)
    have ih: "token_calls (sleep (1000 * 2 ^ retryCount) (w\<lparr>token_calls := token_calls w + 1\<rparr>))
              < token_calls (snd (getAccessToken (sleep (1000 * 2 ^ retryCount) (w\<lparr>token_calls := token_calls w + 1\<rparr>)) (retryCount + 1))) \<and>
          token_calls (snd (getAccessToken (sleep (1000 * 2 ^ retryCount) (w\<lparr>token_calls := token_calls w + 1\<rparr>)) (retryCount + 1)))
              \<le> token_calls (sleep (1000 * 2 ^ retryCount) (w\<lparr>token_calls := token_calls w + 1\<rparr>)) + 1 + (maxRetries - (retryCount + 1))"
      using r nok
      by (intro "1.IH" [of "Inr r" "w\<lparr>token_calls := token_calls w + 1\<rparr>" r t])
         (auto simp: fetch_token_def ok_def)
    have ws: "token_calls (sleep (1000 * 2 ^ retryCount) (w\<lparr>token_calls := token_calls w + 1\<rparr>))
              = token_calls w + 1"
      by (simp add: sleep_def)
    show ?thesis
      unfolding getAccessToken_again [OF True]
      using ih r(4) unfolding ws by arith
  qed
qed



lemma getNowPlaying_again:
  assumes "playback_retried w rc"
  shows "getNowPlaying w rc =
           getNowPlaying (sleep (1000 * 2 ^ rc)
             ((snd (getAccessToken w 0))\<lparr>api_calls := api_calls w + 1\<rparr>)) (rc + 1)"
proof -
  obtain x w1 where t: "getAccessToken w 0 = (x, w1)" by (cases "getAccessToken w 0")
  have f: "api_script w1 = api_script w" "api_calls w1 = api_calls w"
    using getAccessToken_frame [of w 0] by (simp_all add: t)
  show ?thesis
    using assms
    apply (subst getNowPlaying.simps)
    by (auto simp: playback_retried_def t f fetch_api_def get_prop_def split: sum.splits)
qed

lemma getNowPlaying_once:
  assumes "\<not> playback_retried w rc"
  shows "api_calls (snd (getNowPlaying w rc)) \<le> api_calls w + 1 \<and>
         token_calls (snd (getNowPlaying w rc)) = token_calls (snd (getAccessToken w 0)) \<and>
         sleeps (snd (getNowPlaying w rc)) = sleeps (snd (getAccessToken w 0))"
proof -
  obtain x w1 where t: "getAccessToken w 0 = (x, w1)" by (cases "getAccessToken w 0")
  have f: "api_script w1 = api_script w" "api_calls w1 = api_calls w"
    using getAccessToken_frame [of w 0] by (simp_all add: t)
  show ?thesis
    using assms
    apply (subst (1 2 3) getNowPlaying.simps)
    by (auto simp: playback_retried_def t f fetch_api_def get_prop_def split: sum.splits)
qed

lemma getNowPlaying_frame:
  "token_script (snd (getNowPlaying w rc)) = token_script w \<and>
   api_script (snd (getNowPlaying w rc)) = api_script w"
proof (induction w rc rule: getNowPlaying.induct)
  case (1 w retryCount)
  obtain x w1 where t: "getAccessToken w 0 = (x, w1)" by (cases "getAccessToken w 0")
  have f: "token_script w1 = token_script w" "api_script w1 = api_script w"
    using getAccessToken_frame [of w 0] by (simp_all add: t)
  show ?case
    apply (subst (1 2) getNowPlaying.simps)
    using 1 t f
    by (auto simp: fetch_api_def sleep_def split: sum.splits prod.splits)
qed


lemma playback_retried_less: "playback_retried w rc \<Longrightarrow> rc < maxRetries"
  by (auto simp: playback_retried_def split: sum.splits)

lemma getNowPlaying_calls:
  "api_calls w \<le> api_calls (snd (getNowPlaying w rc)) \<and>
   api_calls (snd (getNowPlaying w rc)) \<le> api_calls w + 1 + (maxRetries - rc) \<and>
   token_calls (snd (getNowPlaying w rc)) \<le> token_calls w + 3 * (1 + (maxRetries - rc))"
proof (induction k \<equiv> "maxRetries - rc" arbitrary: w rc)
  case 0
  then have n: "\<not> playback_retried w rc" using playback_retried_less [of w rc] by auto
  have lo: "api_calls w \<le> api_calls (snd (getNowPlaying w rc))"
    apply (subst getNowPlaying.simps)
    using n getAccessToken_frame [of w 0]
    by (auto simp: playback_retried_def fetch_api_def get_prop_def split: sum.splits prod.splits)
  have tk: "token_calls (snd (getAccessToken w 0)) \<le> token_calls w + 3"
    using getAccessToken_calls [of w 0] by (simp add: maxRetries_def)
  show ?case using getNowPlaying_once [OF n] lo tk by simp
next
  case (Suc k)
  show ?case
  proof (cases "playback_retried w rc")
    case False
    have lo: "api_calls w \<le> api_calls (snd (getNowPlaying w rc))"
      apply (subst getNowPlaying.simps)
      using False getAccessToken_frame [of w 0]
      by (auto simp: playback_retried_def fetch_api_def get_prop_def split: sum.splits prod.splits)
    have tk: "token_calls (snd (getAccessToken w 0)) \<le> token_calls w + 3"
      using getAccessToken_calls [of w 0] by (simp add: maxRetries_def)
    show ?thesis using getNowPlaying_once [OF False] lo tk by simp
  next
    case True
    let ?w = "sleep (1000 * 2 ^ rc) ((snd (getAccessToken w 0))\<lparr>api_calls := api_calls w + 1\<rparr>)"
    have k: "k = maxRetries - (rc + 1)" using Suc.hyps(2) by simp
    have lt: "rc < maxRetries" using True by (rule playback_retried_less)
    have ih: "api_calls ?w \<le> api_calls (snd (getNowPlaying ?w (rc + 1))) \<and>
              api_calls (snd (getNowPlaying ?w (rc + 1))) \<le> api_calls ?w + 1 + (maxRetries - (rc + 1)) \<and>
              token_calls (snd (getNowPlaying ?w (rc + 1))) \<le> token_calls ?w + 3 * (1 + (maxRetries - (rc + 1)))"
      using Suc.hyps(1) [OF k] .
    have a: "api_calls ?w = api_calls w + 1" by (simp add: sleep_def)
    have t: "token_calls ?w \<le> token_calls w + 3"
      using getAccessToken_calls [of w 0] by (simp add: sleep_def maxRetries_def)
    show ?thesis
      unfolding getNowPlaying_again [OF True]
      using ih lt t unfolding a by arith
  qed
qed


lemma refresh_retried_class:
  assumes "refresh_retried w rc"
  shows "refresh_failure (token_script w (token_calls w)) = Some UpstreamUnavailable \<and> rc < 2"
proof -
  obtain r where r: "token_script w (token_calls w) = Inr r" "500 \<le> status r" "rc < maxRetries"
    using assms by (cases "token_script w (token_calls w)") (auto simp: refresh_retried_def)
  show ?thesis
    using r by (simp add: refresh_failure_def classify_refresh_def ok_def maxRetries_def)
qed

lemma terminal_not_refresh_retried:
  assumes "refresh_failure (token_script w (token_calls w)) \<in> Some ` terminal"
  shows "\<not> refresh_retried w rc"
  using assms refresh_retried_class [of w rc] by (auto simp: terminal_def)

lemma getAccessToken_failure_thrown:
  assumes "refresh_failure (token_script w (token_calls w)) \<in> Some ` terminal"
  shows "isl (fst (getAccessToken w rc))"
proof -
  obtain r where r: "token_script w (token_calls w) = Inr r" "\<not> ok r"
    using assms
    by (cases "token_script w (token_calls w)")
       (auto simp: refresh_failure_def terminal_def split: if_splits)
  have n: "\<not> (500 \<le> status r \<and> rc < maxRetries)"
    using assms r by (auto simp: refresh_failure_def terminal_def classify_refresh_def split: if_splits)
  show ?thesis
    apply (subst getAccessToken.simps)
    using r n by (auto simp: fetch_token_def split: sum.splits)
qed

lemma playback_retried_class:
  assumes "playback_retried w rc"
  shows "playback_failure (api_script w (api_calls w)) = Some UpstreamUnavailable \<and> rc < 2"
proof -
  obtain r where r: "api_script w (api_calls w) = Inr r" "500 \<le> status r" "rc < maxRetries"
    using assms
    by (cases "fst (getAccessToken w 0)"; cases "api_script w (api_calls w)")
       (auto simp: playback_retried_def)
  show ?thesis
    using r by (simp add: playback_failure_def classify_playback_def ok_def maxRetries_def)
qed

lemma terminal_not_playback_retried:
  assumes "playback_failure (api_script w (api_calls w)) \<in> Some ` terminal"
  shows "\<not> playback_retried w rc"
  using assms playback_retried_class [of w rc] by (auto simp: terminal_def)

lemma getNowPlaying_failure_thrown:
  assumes "playback_failure (api_script w (api_calls w)) \<in> Some ` terminal"
  shows "isl (fst (getNowPlaying w rc))"
proof -
  obtain r where r: "api_script w (api_calls w) = Inr r" "\<not> ok r"
    using assms
    by (cases "api_script w (api_calls w)")
       (auto simp: playback_failure_def terminal_def split: if_splits)
  have n: "\<not> 500 \<le> status r" "status r \<noteq> 204"
    using assms r
    by (auto simp: playback_failure_def terminal_def classify_playback_def ok_def split: if_splits)
  obtain x w1 where t: "getAccessToken w 0 = (x, w1)" by (cases "getAccessToken w 0")
  have f: "api_script w1 = api_script w" "api_calls w1 = api_calls w"
    using getAccessToken_frame [of w 0] by (simp_all add: t)
  show ?thesis
    apply (subst getNowPlaying.simps)
    using r n by (auto simp: t f fetch_api_def read_playback_def split: sum.splits)
qed

text \<open>
  C3. A call of \<open>getAccessToken\<close> goes to the token endpoint a second time only
  when the first answer's class is retryable and fewer than 2 retries have been
  made; an answer of class AuthError, PermissionError or Unexpected ends the call
  at once with a thrown error, after that one request and no delay; at most 3
  requests are made. The same holds for \<open>getNowPlaying\<close> and the playback
  endpoint. The two counts are separate: each playback try refreshes the token
  with a count of its own, so one \<open>getNowPlaying\<close> makes at most 3 playback
  requests and at most 9 token requests.
\<close>

theorem retry_only_retryable:
  "(token_calls w + 1 < token_calls (snd (getAccessToken w rc)) \<longrightarrow>
      refresh_failure (token_script w (token_calls w)) \<in> Some ` retryable \<and> rc < 2) \<and>
   (refresh_failure (token_script w (token_calls w)) \<in> Some ` terminal \<longrightarrow>
      isl (fst (getAccessToken w rc)) \<and>
      token_calls (snd (getAccessToken w rc)) = token_calls w + 1 \<and>
      sleeps (snd (getAccessToken w rc)) = sleeps w) \<and>
   token_calls (snd (getAccessToken w 0)) \<le> token_calls w + 3 \<and>
   (api_calls w + 1 < api_calls (snd (getNowPlaying w rc)) \<longrightarrow>
      playback_failure (api_script w (api_calls w)) \<in> Some ` retryable \<and> rc < 2) \<and>
   (playback_failure (api_script w (api_calls w)) \<in> Some ` terminal \<longrightarrow>
      isl (fst (getNowPlaying w rc)) \<and>
      api_calls (snd (getNowPlaying w rc)) \<le> api_calls w + 1 \<and>
      sleeps (snd (getNowPlaying w rc)) = sleeps (snd (getAccessToken w 0))) \<and>
   api_calls (snd (getNowPlaying w 0)) \<le> api_calls w + 3 \<and>
   token_calls (snd (getNowPlaying w 0)) \<le> token_calls w + 9"
proof -
  have t1: "token_calls w + 1 < token_calls (snd (getAccessToken w rc)) \<longrightarrow>
      refresh_failure (token_script w (token_calls w)) \<in> Some ` retryable \<and> rc < 2"
  proof (cases "refresh_retried w rc")
    case True
    then show ?thesis using refresh_retried_class [of w rc] by (simp add: retryable_def)
  next
    case False
    then show ?thesis using getAccessToken_once [of w rc] by simp
  qed
  have t2: "refresh_failure (token_script w (token_calls w)) \<in> Some ` terminal \<longrightarrow>
      isl (fst (getAccessToken w rc)) \<and>
      token_calls (snd (getAccessToken w rc)) = token_calls w + 1 \<and>
      sleeps (snd (getAccessToken w rc)) = sleeps w"
    using getAccessToken_failure_thrown [of w rc] terminal_not_refresh_retried [of w rc]
      getAccessToken_once [of w rc]
    by blast
  have t3: "token_calls (snd (getAccessToken w 0)) \<le> token_calls w + 3"
    using getAccessToken_calls [of w 0] by (simp add: maxRetries_def)
  have p1: "api_calls w + 1 < api_calls (snd (getNowPlaying w rc)) \<longrightarrow>
      playback_failure (api_script w (api_calls w)) \<in> Some ` retryable \<and> rc < 2"
  proof (cases "playback_retried w rc")
    case True
    then show ?thesis using playback_retried_class [of w rc] by (simp add: retryable_def)
  next
    case False
    then show ?thesis using getNowPlaying_once [of w rc] by simp
  qed
  have p2: "playback_failure (api_script w (api_calls w)) \<in> Some ` terminal \<longrightarrow>
      isl (fst (getNowPlaying w rc)) \<and>
      api_calls (snd (getNowPlaying w rc)) \<le> api_calls w + 1 \<and>
      sleeps (snd (getNowPlaying w rc)) = sleeps (snd (getAccessToken w 0))"
    using getNowPlaying_failure_thrown [of w rc] terminal_not_playback_retried [of w rc]
      getNowPlaying_once [of w rc]
    by blast
  have p3: "api_calls (snd (getNowPlaying w 0)) \<le> api_calls w + 3"
    and p4: "token_calls (snd (getNowPlaying w 0)) \<le> token_calls w + 9"
    using getNowPlaying_calls [of w 0] by (simp_all add: maxRetries_def)
  from t1 t2 t3 p1 p2 p3 p4 show ?thesis by blast
qed

lemma flaky_eval:
  "fst (getNowPlaying flaky 0) = Inl (Error ''Spotify API temporarily unavailable'') \<and>
   token_calls (snd (getNowPlaying flaky 0)) = 9 \<and>
   api_calls (snd (getNowPlaying flaky 0)) = 3 \<and>
   sleeps (snd (getNowPlaying flaky 0)) = [1000, 2000, 1000, 1000, 2000, 2000, 1000, 2000]"
  by (simp add: getNowPlaying.simps getAccessToken.simps flaky_def flaky_token_def fetch_token_def
      fetch_api_def sleep_def token_ok_def api_status_def ok_def get_prop_def maxRetries_def)

lemma steady_401_eval:
  "fst (getNowPlaying (steady token_ok (api_status 401)) 0)
     = Inl (Error ''Spotify access token expired - authentication issue'') \<and>
   api_calls (snd (getNowPlaying (steady token_ok (api_status 401)) 0)) = 1 \<and>
   token_calls (snd (getNowPlaying (steady token_ok (api_status 401)) 0)) = 1 \<and>
   sleeps (snd (getNowPlaying (steady token_ok (api_status 401)) 0)) = []"
  by (simp add: getNowPlaying.simps getAccessToken.simps steady_def fetch_token_def
      fetch_api_def token_ok_def api_status_def ok_def get_prop_def client_error_def)

theorem retry_only_retryable_witness:
  "api_calls flaky + 1 < api_calls (snd (getNowPlaying flaky 0)) \<and>
   playback_failure (api_script flaky (api_calls flaky)) = Some UpstreamUnavailable \<and>
   token_calls flaky + 1 < token_calls (snd (getAccessToken flaky 0)) \<and>
   refresh_failure (token_script flaky (token_calls flaky)) = Some UpstreamUnavailable \<and>
   api_calls (snd (getNowPlaying flaky 0)) = 3 \<and>
   token_calls (snd (getNowPlaying flaky 0)) = 9 \<and>
   playback_failure (api_script (steady token_ok (api_status 401))
       (api_calls (steady token_ok (api_status 401)))) = Some AuthError \<and>
   isl (fst (getNowPlaying (steady token_ok (api_status 401)) 0)) \<and>
   api_calls (snd (getNowPlaying (steady token_ok (api_status 401)) 0)) = 1 \<and>
   refresh_failure (token_script (steady (api_status 400) (api_status 204))
       (token_calls (steady (api_status 400) (api_status 204)))) = Some AuthError \<and>
   isl (fst (getAccessToken (steady (api_status 400) (api_status 204)) 0)) \<and>
   token_calls (snd (getAccessToken (steady (api_status 400) (api_status 204)) 0)) = 1"
  using retry_only_retryable [of flaky 0]
        retry_only_retryable [of "steady token_ok (api_status 401)" 0]
        retry_only_retryable [of "steady (api_status 400) (api_status 204)" 0]
        flaky_eval steady_401_eval
  by (simp add: playback_failure_def refresh_failure_def classify_playback_def classify_refresh_def
      terminal_def retryable_def flaky_def flaky_token_def steady_def api_status_def token_ok_def
      ok_def getAccessToken.simps fetch_token_def sleep_def maxRetries_def Error_def)

subsection \<open>Retry delay\<close>

text \<open>
  The jitter \<open>Math.random() * 1000\<close> stays below 1000 after rounding, and the sum
  stays between the capped delay and the capped delay plus 1000.
\<close>

lemma dval_nonneg: "0 \<le> dval d"
  by (simp add: dval_def)

lemma jitter_below:
  assumes "mant rnd < 2 ^ 53" and "scale rnd \<le> 1074" and "dval rnd < 1"
  shows "dval (dmul rnd (Double 1000 0)) < 1000"
proof -
  define a where "a = mant rnd"
  define t where "t = scale rnd"
  define P where "P = a * 1000"
  define k where "k = bit_length P - 53"
  define q where "q = P div 2 ^ k"
  define q' where "q' = (if P mod 2 ^ k < 2 ^ (k - 1) \<or> (P mod 2 ^ k = 2 ^ (k - 1) \<and> even q)
                         then q else q + 1)"
  have at: "a < 2 ^ t"
    using assms(3) dval_less_iff [of rnd 1] by (simp add: a_def t_def)
  then have room: "P + 1000 \<le> 1000 * 2 ^ t"
    by (simp add: P_def)
  have "P < 2 ^ 63"
    using assms(1) by (simp add: P_def a_def)
  then have "bit_length P \<le> 63"
    by (simp only: bit_length_le_iff)
  then have k10: "k \<le> 10" by (simp add: k_def)
  have kt: "k \<le> t"
  proof (rule ccontr)
    assume "\<not> k \<le> t"
    then have "t < bit_length P - 53" by (simp add: k_def)
    moreover have "P \<le> 1000 * 2 ^ t" using room by simp
    ultimately show False using big_shift_impossible [of t P 1000] by simp
  qed
  have r: "dmul rnd (Double 1000 0) = (if k = 0 then Double P t else Double q' (t - k))"
    using kt assms(2)
    unfolding q'_def q_def k_def P_def a_def t_def dmul_def round_double_def Let_def
    by simp
  show ?thesis
  proof (cases "k = 0")
    case True
    have "P < 1000 * 2 ^ t" using room by simp
    then show ?thesis using r True dval_less [of "Double P t" 1000] by simp
  next
    case False
    have two: "(2::nat) ^ k = 2 * 2 ^ (k - 1)"
      using False by (cases k) simp_all
    have "(2::nat) ^ (k - 1) \<le> 2 ^ 9"
      using k10 by (intro power_increasing) simp_all
    then have half: "(2::nat) ^ (k - 1) < 1000" by simp
    have P: "P = q * 2 ^ k + P mod 2 ^ k"
      unfolding q_def by (rule div_mult_mod_eq [symmetric])
    have "q' * 2 ^ k \<le> P + 2 ^ (k - 1)"
    proof (cases "q' = q")
      case True
      then show ?thesis using P by simp
    next
      case False
      then have up: "q' = q + 1" and big: "2 ^ (k - 1) \<le> P mod 2 ^ k"
        by (auto simp: q'_def split: if_splits)
      have "q' * 2 ^ k = q * 2 ^ k + 2 ^ k" using up by (simp add: algebra_simps)
      then show ?thesis using P big two by linarith
    qed
    then have "q' * 2 ^ k < 1000 * 2 ^ t" using half room by linarith
    then have "q' * 2 ^ k < 1000 * 2 ^ (t - k) * 2 ^ k"
      using shift_split [OF kt, of 1000] by simp
    then have "q' < 1000 * 2 ^ (t - k)" by simp
    then show ?thesis using r False dval_less [of "Double q' (t - k)" 1000] by simp
  qed
qed

lemma delay_bounds:
  assumes "delay \<le> 30000" and "dval jitter \<le> 1000"
  shows "real delay \<le> dval (dadd (Double delay 0) jitter) \<and>
         dval (dadd (Double delay 0) jitter) \<le> real delay + 1000"
proof -
  define s where "s = scale jitter"
  have d: "dadd (Double delay 0) jitter = round_double (delay * 2 ^ s + mant jitter) s"
    by (simp add: dadd_def s_def Let_def)
  have "real (mant jitter) \<le> 1000 * 2 ^ s"
    using assms(2) by (simp add: dval_def s_def field_simps)
  then have "real (mant jitter) \<le> real (1000 * 2 ^ s)" by simp
  then have j: "mant jitter \<le> 1000 * 2 ^ s" by (simp only: of_nat_le_iff)
  have "delay * 2 ^ s \<le> delay * 2 ^ s + mant jitter" by simp
  moreover have "delay < 2 ^ 53" using assms(1) by simp
  ultimately have lo: "real delay \<le> dval (round_double (delay * 2 ^ s + mant jitter) s)"
    by (rule round_double_ge)
  have "delay * 2 ^ s + mant jitter \<le> (delay + 1000) * 2 ^ s"
    using j by (simp add: algebra_simps)
  moreover have "delay + 1000 < 2 ^ 53" using assms(1) by simp
  ultimately have "dval (round_double (delay * 2 ^ s + mant jitter) s) \<le> real (delay + 1000)"
    by (rule round_double_le)
  then show ?thesis using lo d by simp
qed

lemma no_jitter:
  assumes "delay \<le> 30000"
  shows "dadd (Double delay 0) (dmul (Double 0 0) (Double 1000 0)) = Double delay 0"
proof -
  have "delay < 2 ^ 53" using assms by simp
  then have "bit_length delay \<le> 53" by (simp only: bit_length_le_iff)
  then show ?thesis by (simp add: dadd_def dmul_def round_double_def)
qed

lemma backoff_mono: "n \<le> m \<Longrightarrow> min (1000 * 2 ^ n) 30000 \<le> min (1000 * 2 ^ m) (30000::nat)"
proof -
  assume "n \<le> m"
  then have "(2::nat) ^ n \<le> 2 ^ m" by (simp add: power_increasing)
  then show ?thesis by (simp add: min_le_iff_disj)
qed

lemma getRetryDelay_no_jitter:
  "getRetryDelay n (Double 0 0) = Double (min (1000 * 2 ^ n) 30000) 0"
  using no_jitter [of "min (1000 * 2 ^ n) 30000"] by (simp add: getRetryDelay_def)

text \<open>
  C4, as the code has it. For every attempt \<open>n\<close> and every double \<open>rnd\<close> in
  \<open>[0, 1)\<close> that \<open>Math.random()\<close> returns, the delay is \<open>min(1000 * 2^n, 30000)\<close> plus
  the jitter \<open>rnd * 1000\<close>, which lies in \<open>[0, 1000)\<close> and is added after the cap; the
  jitter does not take the delay below the capped value; the delay without jitter
  is the capped value and does not decrease with the attempt; the delay never
  exceeds \<open>30000 + 1000\<close>. The delay of the retry the widget schedules after a 429
  response is this delay whatever the response's \<open>Retry-After\<close> header says. The
  fetch routines of the retrying handler wait \<open>1000 * 2^retryCount\<close> ms before they
  call themselves again, with \<open>retryCount\<close> 0 or 1: the same delay with no jitter.
\<close>

theorem retry_delay_backoff:
  assumes "mant rnd < 2 ^ 53" and "scale rnd \<le> 1074" and "dval rnd < 1" and "n \<le> m"
  shows "getRetryDelay n rnd =
           dadd (Double (min (1000 * 2 ^ n) 30000) 0) (dmul rnd (Double 1000 0)) \<and>
         0 \<le> dval (dmul rnd (Double 1000 0)) \<and> dval (dmul rnd (Double 1000 0)) < 1000 \<and>
         real (min (1000 * 2 ^ n) 30000) \<le> dval (getRetryDelay n rnd) \<and>
         dval (getRetryDelay n rnd) \<le> real (min (1000 * 2 ^ n) 30000) + 1000 \<and>
         dval (getRetryDelay n (Double 0 0)) = real (min (1000 * 2 ^ n) 30000) \<and>
         dval (getRetryDelay n (Double 0 0)) \<le> dval (getRetryDelay m (Double 0 0)) \<and>
         dval (getRetryDelay n rnd) \<le> 30000 + 1000 \<and>
         (status r = 429 \<longrightarrow>
            timeoutRef (fst (fetchData_settled st c now url rnd (Inr (r\<lparr>retry_after := hint\<rparr>))))
              = (if retryCountRef st < 3 then Some (getRetryDelay (retryCountRef st) rnd)
                 else timeoutRef st)) \<and>
         (refresh_retried w rc \<longrightarrow>
            getAccessToken w rc =
              getAccessToken (sleep (1000 * 2 ^ rc) (w\<lparr>token_calls := token_calls w + 1\<rparr>)) (rc + 1) \<and>
            real (1000 * 2 ^ rc) = dval (getRetryDelay rc (Double 0 0))) \<and>
         (playback_retried w rc \<longrightarrow>
            getNowPlaying w rc =
              getNowPlaying (sleep (1000 * 2 ^ rc)
                ((snd (getAccessToken w 0))\<lparr>api_calls := api_calls w + 1\<rparr>)) (rc + 1) \<and>
            real (1000 * 2 ^ rc) = dval (getRetryDelay rc (Double 0 0)))"
proof -
  define delay :: nat where "delay = min (1000 * 2 ^ n) 30000"
  have cap: "delay \<le> 30000" by (simp add: delay_def)
  have d: "getRetryDelay n rnd = dadd (Double delay 0) (dmul rnd (Double 1000 0))"
    by (simp add: getRetryDelay_def delay_def)
  have j0: "0 \<le> dval (dmul rnd (Double 1000 0))" by (rule dval_nonneg)
  have j1: "dval (dmul rnd (Double 1000 0)) < 1000"
    using assms(1-3) by (rule jitter_below)
  have lo: "real delay \<le> dval (getRetryDelay n rnd)"
    and up: "dval (getRetryDelay n rnd) \<le> real delay + 1000"
    using delay_bounds [OF cap, of "dmul rnd (Double 1000 0)"] j1 d by simp_all
  have z: "dval (getRetryDelay k (Double 0 0)) = real (min (1000 * 2 ^ k) 30000)" for k
    by (simp add: getRetryDelay_no_jitter dval_def)
  have mo: "dval (getRetryDelay n (Double 0 0)) \<le> dval (getRetryDelay m (Double 0 0))"
    using backoff_mono [OF assms(4)] by (simp only: z of_nat_le_iff)
  have b: "dval (getRetryDelay n rnd) \<le> 30000 + 1000"
    using up cap by simp
  have h: "status r = 429 \<longrightarrow>
            timeoutRef (fst (fetchData_settled st c now url rnd (Inr (r\<lparr>retry_after := hint\<rparr>))))
              = (if retryCountRef st < 3 then Some (getRetryDelay (retryCountRef st) rnd)
                 else timeoutRef st)"
    by (simp add: fetchData_settled_def fetchData_catch_def ok_def)
  have s: "real (1000 * 2 ^ rc) = dval (getRetryDelay rc (Double 0 0))" if "rc < maxRetries"
  proof -
    have "rc = 0 \<or> rc = 1" using that by (auto simp: maxRetries_def)
    then show ?thesis by (auto simp: z)
  qed
  have t: "refresh_retried w rc \<longrightarrow>
            getAccessToken w rc =
              getAccessToken (sleep (1000 * 2 ^ rc) (w\<lparr>token_calls := token_calls w + 1\<rparr>)) (rc + 1) \<and>
            real (1000 * 2 ^ rc) = dval (getRetryDelay rc (Double 0 0))"
    using getAccessToken_again [of w rc] refresh_retried_class [of w rc] s
    by (simp add: maxRetries_def)
  have p: "playback_retried w rc \<longrightarrow>
            getNowPlaying w rc =
              getNowPlaying (sleep (1000 * 2 ^ rc)
                ((snd (getAccessToken w 0))\<lparr>api_calls := api_calls w + 1\<rparr>)) (rc + 1) \<and>
            real (1000 * 2 ^ rc) = dval (getRetryDelay rc (Double 0 0))"
    using getNowPlaying_again [of w rc] playback_retried_less [of w rc] s by simp
  from d j0 j1 lo up z [of n] mo b h t p show ?thesis
    unfolding delay_def by blast
qed

theorem retry_delay_backoff_witness:
  "mant (Double 1 1) < 2 ^ 53 \<and> scale (Double 1 1) \<le> 1074 \<and> dval (Double 1 1) < 1 \<and>
   (3::nat) \<le> 5 \<and>
   dval (dmul (Double 1 1) (Double 1000 0)) = 500 \<and>
   dval (getRetryDelay 3 (Double 1 1)) = 8500 \<and>
   dval (getRetryDelay 3 (Double 0 0)) = 8000 \<and>
   dval (getRetryDelay 3 (Double 0 0)) \<le> dval (getRetryDelay 5 (Double 0 0)) \<and>
   dval (getRetryDelay 5 (Double 1 1)) = 30500 \<and>
   dval (getRetryDelay 3 (Double 1 1)) \<le> 30000 + 1000 \<and>
   timeoutRef (fst (fetchData_settled widget_init Map.empty 0 ''u'' (Double 1 1)
     (Inr (\<lparr>status = 429, json_result = Inr (JObj []), text_result = Inr [],
             retry_after = None\<rparr>\<lparr>retry_after := Some ''60''\<rparr>))))
     = Some (getRetryDelay 0 (Double 1 1)) \<and>
   refresh_retried flaky 1 \<and>
   getAccessToken flaky 1 = getAccessToken (sleep 2000 (flaky\<lparr>token_calls := 1\<rparr>)) (Suc 1) \<and>
   playback_retried flaky 1 \<and>
   getNowPlaying flaky 1 =
     getNowPlaying (sleep 2000 ((snd (getAccessToken flaky 0))\<lparr>api_calls := 1\<rparr>)) (Suc 1)"
proof -
  have r: "refresh_retried flaky 1"
    by (simp add: refresh_retried_def flaky_def flaky_token_def api_status_def maxRetries_def)
  have p: "playback_retried flaky 1"
    by (simp add: playback_retried_def getAccessToken.simps fetch_token_def sleep_def flaky_def
        flaky_token_def api_status_def token_ok_def ok_def maxRetries_def)
  have f: "token_calls flaky = 0" "api_calls flaky = 0" by (simp_all add: flaky_def)
  show ?thesis
    using retry_delay_backoff [of "Double 1 1" 3 5
        "\<lparr>status = 429, json_result = Inr (JObj []), text_result = Inr [], retry_after = None\<rparr>"
        widget_init Map.empty 0 "''u''" "Some ''60''" flaky 1] r p
    by (simp add: getRetryDelay_def dadd_def dmul_def round_double_def dval_def widget_init_def f)
qed

text \<open>
  The bound is reached. With the largest double below 1, \<open>1 - 2^-53\<close>, the jitter is
  \<open>1000 - 2^-43\<close> and the sums round to 2000, to 3000 and, from attempt 5 on, to
  31000; with \<open>1 - 2^-52\<close> the sums at attempts 1 and 5 round to 3000 and 31000.
\<close>

lemma getRetryDelay_bound_reached:
  "dval (Double (2 ^ 53 - 1) 53) = 1 - 1 / 2 ^ 53 \<and>
   dval (dmul (Double (2 ^ 53 - 1) 53) (Double 1000 0)) = 1000 - 1 / 2 ^ 43 \<and>
   dval (getRetryDelay 0 (Double (2 ^ 53 - 1) 53)) = 2000 \<and>
   dval (getRetryDelay 1 (Double (2 ^ 53 - 1) 53)) = 3000 \<and>
   dval (getRetryDelay 5 (Double (2 ^ 53 - 1) 53)) = 30000 + 1000 \<and>
   dval (Double (2 ^ 52 - 1) 52) = 1 - 1 / 2 ^ 52 \<and>
   dval (dmul (Double (2 ^ 52 - 1) 52) (Double 1000 0)) = 1000 - 1 / 2 ^ 42 \<and>
   dval (getRetryDelay 0 (Double (2 ^ 52 - 1) 52)) = 2000 - 1 / 2 ^ 42 \<and>
   dval (getRetryDelay 1 (Double (2 ^ 52 - 1) 52)) = 3000 \<and>
   dval (getRetryDelay 5 (Double (2 ^ 52 - 1) 52)) = 30000 + 1000"
  by (simp add: getRetryDelay_def dadd_def dmul_def round_double_def dval_def)

text \<open>
  C4 as stated fails on the retry-after hint. The upstream answers 429 with
  \<open>Retry-After: 60\<close>; the validating handler passes the status and the header on;
  the widget, at attempt 0 with \<open>Math.random() = 0.5\<close>, quotes the hint in its error
  message and schedules the retry after 1500 ms, not after the 60 s of the hint.
\<close>

theorem retry_after_hint_counterexample:
  "retry_after (received (nowPlayingHandler ''GET'' None token_ok api_429)) = Some ''60'' \<and>
   dval (Double 1 1) = 1 / 2 \<and>
   map_option dval
     (timeoutRef (fst (fetchData_settled widget_init Map.empty 0 ''u'' (Double 1 1)
        (Inr (received (nowPlayingHandler ''GET'' None token_ok api_429)))))) = Some 1500 \<and>
   errorMessage (fst (fetchData_settled widget_init Map.empty 0 ''u'' (Double 1 1)
       (Inr (received (nowPlayingHandler ''GET'' None token_ok api_429)))))
     = Some ''Spotify rate limit exceeded - retry after 60s'' \<and>
   (1500::real) < 60 * 1000"
  by (simp add: nowPlayingHandler_def validated_try_def validated_playback_def token_ok_def api_429_def
      ok_def get_prop_def received_def respond_def getHeader_def setHeader_def production_headers_def
      retry_after_or_def fetchData_settled_def fetchData_catch_def widget_error_def widget_init_def
      getRetryDelay_def dadd_def dmul_def round_double_def dval_def Error_def Let_def)

subsection \<open>Statuses of the playback response\<close>






subsection \<open>Request deduplication\<close>

lemma dedup_inv_init: "dedup_inv dedup_init"
  by (simp add: dedup_inv_def dedup_init_def)

lemma dedup_invD:
  assumes "dedup_inv s"
  shows "(p, u, opts) \<in> set (fetch_log s) \<Longrightarrow> p < next_promise s"
    and "distinct (map fst (fetch_log s))"
    and "pendingRequests s k = Some p \<Longrightarrow> finished s p = None"
    and "pendingRequests s k = Some p \<Longrightarrow> \<exists>u opts. (p, u, opts) \<in> set (fetch_log s) \<and> dedupKey u opts = k"
    and "(p, u, opts) \<in> set (fetch_log s) \<Longrightarrow> finished s p = None \<Longrightarrow> pendingRequests s (dedupKey u opts) = Some p"
    and "finished s p \<noteq> None \<Longrightarrow> p < next_promise s"
    and "settled s p = Some outcome \<Longrightarrow> finished s p = Some outcome"
  using assms unfolding dedup_inv_def by blast+

lemma dedup_invI:
  assumes "\<And>p u opts. (p, u, opts) \<in> set (fetch_log s) \<Longrightarrow> p < next_promise s"
    and "distinct (map fst (fetch_log s))"
    and "\<And>k p. pendingRequests s k = Some p \<Longrightarrow> finished s p = None"
    and "\<And>k p. pendingRequests s k = Some p \<Longrightarrow> \<exists>u opts. (p, u, opts) \<in> set (fetch_log s) \<and> dedupKey u opts = k"
    and "\<And>p u opts. (p, u, opts) \<in> set (fetch_log s) \<Longrightarrow> finished s p = None \<Longrightarrow> pendingRequests s (dedupKey u opts) = Some p"
    and "\<And>p. finished s p \<noteq> None \<Longrightarrow> p < next_promise s"
    and "\<And>p outcome. settled s p = Some outcome \<Longrightarrow> finished s p = Some outcome"
  shows "dedup_inv s"
  using assms unfolding dedup_inv_def by blast

lemma deduplicatedFetch_hit:
  "pendingRequests s (dedupKey url options) = Some p \<Longrightarrow> deduplicatedFetch s url options = (p, s)"
  by (simp add: deduplicatedFetch_def)

lemma deduplicatedFetch_miss:
  "pendingRequests s (dedupKey url options) = None \<Longrightarrow>
     deduplicatedFetch s url options =
       (next_promise s,
        s\<lparr>fetch_log := fetch_log s @ [(next_promise s, url, options)],
          pendingRequests := (pendingRequests s)(dedupKey url options \<mapsto> next_promise s),
          next_promise := next_promise s + 1\<rparr>)"
  by (simp add: deduplicatedFetch_def Let_def)

lemma dedup_inv_call:
  assumes "dedup_inv s"
  shows "dedup_inv (snd (deduplicatedFetch s url options))"
proof (cases "pendingRequests s (dedupKey url options)")
  case (Some p)
  then show ?thesis using assms by (simp add: deduplicatedFetch_hit)
next
  case None
  let ?n = "next_promise s"
  let ?k = "dedupKey url options"
  let ?s = "s\<lparr>fetch_log := fetch_log s @ [(?n, url, options)],
          pendingRequests := (pendingRequests s)(?k \<mapsto> ?n),
          next_promise := ?n + 1\<rparr>"
  have fresh: "(?n, u, opts) \<notin> set (fetch_log s)" for u opts
    using dedup_invD(1) [OF assms, of ?n u opts] by auto
  have notin: "?n \<notin> fst ` set (fetch_log s)"
    using fresh by force
  have unfinished: "finished s ?n = None"
    using dedup_invD(6) [OF assms, of ?n] by (cases "finished s ?n") auto
  have "dedup_inv ?s"
  proof (rule dedup_invI)
    fix p u opts assume "(p, u, opts) \<in> set (fetch_log ?s)"
    then show "p < next_promise ?s" using dedup_invD(1) [OF assms, of p u opts] by auto
  next
    show "distinct (map fst (fetch_log ?s))" using dedup_invD(2) [OF assms] notin by simp
  next
    fix k p assume "pendingRequests ?s k = Some p"
    then show "finished ?s p = None"
      using dedup_invD(3) [OF assms, of k p] unfinished by (auto split: if_splits)
  next
    fix k p assume "pendingRequests ?s k = Some p"
    then show "\<exists>u opts. (p, u, opts) \<in> set (fetch_log ?s) \<and> dedupKey u opts = k"
      using dedup_invD(4) [OF assms, of k p] by (auto split: if_splits)
  next
    fix p u opts assume "(p, u, opts) \<in> set (fetch_log ?s)" "finished ?s p = None"
    then show "pendingRequests ?s (dedupKey u opts) = Some p"
      using dedup_invD(5) [OF assms, of p u opts] None by auto
  next
    fix p assume "finished ?s p \<noteq> None"
    then show "p < next_promise ?s" using dedup_invD(6) [OF assms, of p] by auto
  next
    fix p outcome assume "settled ?s p = Some outcome"
    then show "finished ?s p = Some outcome" using dedup_invD(7) [OF assms, of p outcome] by simp
  qed
  then show ?thesis by (simp add: deduplicatedFetch_miss [OF None])
qed

lemma map_of_fetch_log:
  assumes "distinct (map fst (fetch_log s))"
  shows "map_of (fetch_log s) p = Some (u, opts) \<longleftrightarrow> (p, u, opts) \<in> set (fetch_log s)"
  using assms by (rule map_of_eq_Some_iff)

lemma fetch_done_noop:
  "map_of (fetch_log s) p = None \<or> finished s p \<noteq> None \<Longrightarrow> fetch_done s p outcome = s"
  by (auto simp: fetch_done_def split: option.splits)

lemma fetch_done_inflight:
  assumes "map_of (fetch_log s) p = Some (u, opts)" "finished s p = None"
  shows "fetch_done s p outcome =
           s\<lparr>pendingRequests := (pendingRequests s)(dedupKey u opts := None),
             finished := (finished s)(p \<mapsto> outcome)\<rparr>"
  using assms by (simp add: fetch_done_def)

lemma dedup_inv_fetch_done:
  assumes "dedup_inv s"
  shows "dedup_inv (fetch_done s p outcome)"
proof (cases "map_of (fetch_log s) p = None \<or> finished s p \<noteq> None")
  case True
  then show ?thesis using assms by (simp add: fetch_done_noop)
next
  case False
  then obtain u opts where m: "map_of (fetch_log s) p = Some (u, opts)" and n: "finished s p = None"
    by auto
  have mem: "(p, u, opts) \<in> set (fetch_log s)"
    using m map_of_fetch_log [OF dedup_invD(2) [OF assms]] by simp
  have reg: "pendingRequests s (dedupKey u opts) = Some p"
    using dedup_invD(5) [OF assms mem n] .
  let ?s = "s\<lparr>pendingRequests := (pendingRequests s)(dedupKey u opts := None),
             finished := (finished s)(p \<mapsto> outcome)\<rparr>"
  have "dedup_inv ?s"
  proof (rule dedup_invI)
    fix q v w assume "(q, v, w) \<in> set (fetch_log ?s)"
    then show "q < next_promise ?s" using dedup_invD(1) [OF assms, of q v w] by simp
  next
    show "distinct (map fst (fetch_log ?s))" using dedup_invD(2) [OF assms] by simp
  next
    fix k q assume a: "pendingRequests ?s k = Some q"
    then have k: "k \<noteq> dedupKey u opts" "pendingRequests s k = Some q" by (auto split: if_splits)
    have "q \<noteq> p"
    proof
      assume "q = p"
      then obtain v w where "(p, v, w) \<in> set (fetch_log s)" "dedupKey v w = k"
        using dedup_invD(4) [OF assms k(2)] by auto
      moreover have "map_of (fetch_log s) p = Some (v, w)"
        using calculation(1) map_of_fetch_log [OF dedup_invD(2) [OF assms]] by simp
      ultimately show False using k(1) m by auto
    qed
    then show "finished ?s q = None" using dedup_invD(3) [OF assms k(2)] by simp
  next
    fix k q assume a: "pendingRequests ?s k = Some q"
    then have k: "pendingRequests s k = Some q" by (auto split: if_splits)
    then show "\<exists>v w. (q, v, w) \<in> set (fetch_log ?s) \<and> dedupKey v w = k"
      using dedup_invD(4) [OF assms k] by simp
  next
    fix q v w assume a: "(q, v, w) \<in> set (fetch_log ?s)" "finished ?s q = None"
    then have q: "q \<noteq> p" "(q, v, w) \<in> set (fetch_log s)" "finished s q = None"
      by (auto split: if_splits)
    have r: "pendingRequests s (dedupKey v w) = Some q" using dedup_invD(5) [OF assms q(2,3)] .
    have "dedupKey v w \<noteq> dedupKey u opts" using r reg q(1) by auto
    then show "pendingRequests ?s (dedupKey v w) = Some q" using r by simp
  next
    fix q assume "finished ?s q \<noteq> None"
    then show "q < next_promise ?s"
      using dedup_invD(6) [OF assms, of q] dedup_invD(1) [OF assms mem] by (auto split: if_splits)
  next
    fix q out assume a: "settled ?s q = Some out"
    then have s: "settled s q = Some out" by simp
    have "q \<noteq> p" using dedup_invD(7) [OF assms s] n by auto
    then show "finished ?s q = Some out" using dedup_invD(7) [OF assms s] by simp
  qed
  then show ?thesis by (simp add: fetch_done_inflight [OF m n])
qed

lemma dedup_inv_deliver:
  assumes "dedup_inv s"
  shows "dedup_inv (deliver s p)"
proof (cases "finished s p")
  case None
  then show ?thesis using assms by (simp add: deliver_def)
next
  case (Some outcome)
  have "dedup_inv (s\<lparr>settled := (settled s)(p \<mapsto> outcome)\<rparr>)"
  proof (rule dedup_invI)
    fix q out assume "settled (s\<lparr>settled := (settled s)(p \<mapsto> outcome)\<rparr>) q = Some out"
    then show "finished (s\<lparr>settled := (settled s)(p \<mapsto> outcome)\<rparr>) q = Some out"
      using dedup_invD(7) [OF assms, of q out] Some by (auto split: if_splits)
  qed (use assms in \<open>auto dest: dedup_invD\<close>)
  then show ?thesis using Some by (simp add: deliver_def)
qed

lemma dedup_inv_step:
  assumes "dedup_inv s"
  shows "dedup_inv (fst (step s e))"
proof (cases e)
  case (Call url options)
  then show ?thesis
    using dedup_inv_call [OF assms, of url options]
    by (cases "deduplicatedFetch s url options") simp
next
  case (FetchDone p outcome)
  then show ?thesis using dedup_inv_fetch_done [OF assms] by simp
next
  case (Deliver p)
  then show ?thesis using dedup_inv_deliver [OF assms] by simp
qed

lemma run_Cons:
  "run s (e # es) = (fst (run (fst (step s e)) es), snd (step s e) # snd (run (fst (step s e)) es))"
  by (cases "step s e"; cases "run (fst (step s e)) es") simp

lemma dedup_inv_run: "dedup_inv s \<Longrightarrow> dedup_inv (fst (run s es))"
proof (induction es arbitrary: s)
  case Nil
  then show ?case by simp
next
  case (Cons e es)
  show ?case
    using Cons.IH [OF dedup_inv_step [OF Cons.prems, of e]]
    unfolding run_Cons by simp
qed

lemma step_keeps_registration:
  assumes "dedup_inv s" and "pendingRequests s k = Some p" and "\<not> ends p e"
  shows "pendingRequests (fst (step s e)) k = Some p \<and>
         fetches_for (fst (step s e)) k = fetches_for s k \<and>
         (\<forall>url options. e = Call url options \<and> dedupKey url options = k \<longrightarrow> snd (step s e) = Some p)"
proof (cases e)
  case (Call url options)
  show ?thesis
  proof (cases "pendingRequests s (dedupKey url options)")
    case (Some q)
    then show ?thesis using Call assms(2) by (auto simp: deduplicatedFetch_hit)
  next
    case None
    then have "dedupKey url options \<noteq> k" using assms(2) by auto
    then show ?thesis
      using Call assms(2) by (simp add: deduplicatedFetch_miss [OF None] fetches_for_def)
  qed
next
  case (FetchDone q outcome)
  then have qp: "q \<noteq> p" using assms(3) by simp
  show ?thesis
  proof (cases "map_of (fetch_log s) q = None \<or> finished s q \<noteq> None")
    case True
    then show ?thesis using FetchDone assms(2) by (simp add: fetch_done_noop)
  next
    case False
    then obtain u opts where m: "map_of (fetch_log s) q = Some (u, opts)" and n: "finished s q = None"
      by auto
    have mem: "(q, u, opts) \<in> set (fetch_log s)"
      using m map_of_fetch_log [OF dedup_invD(2) [OF assms(1)]] by simp
    have "pendingRequests s (dedupKey u opts) = Some q"
      using dedup_invD(5) [OF assms(1) mem n] .
    then have "dedupKey u opts \<noteq> k" using assms(2) qp by auto
    then show ?thesis
      using FetchDone assms(2) by (simp add: fetch_done_inflight [OF m n] fetches_for_def)
  qed
next
  case (Deliver q)
  then show ?thesis using assms(2) by (simp add: deliver_def fetches_for_def split: option.splits)
qed

lemma run_keeps_registration:
  assumes "dedup_inv s" and "pendingRequests s k = Some p" and "\<not> list_ex (ends p) es"
  shows "pendingRequests (fst (run s es)) k = Some p \<and>
         fetches_for (fst (run s es)) k = fetches_for s k \<and>
         (\<forall>i < length es. \<forall>url options.
            es ! i = Call url options \<and> dedupKey url options = k \<longrightarrow> snd (run s es) ! i = Some p)"
  using assms
proof (induction es arbitrary: s)
  case Nil
  then show ?case by simp
next
  case (Cons e es)
  have ne: "\<not> ends p e" and nes: "\<not> list_ex (ends p) es" using Cons.prems(3) by simp_all
  note st = step_keeps_registration [OF Cons.prems(1,2) ne]
  have inv: "dedup_inv (fst (step s e))" using Cons.prems(1) by (rule dedup_inv_step)
  note ih = Cons.IH [OF inv conjunct1 [OF st] nes]
  show ?case
    unfolding run_Cons
    using st ih by (auto simp: nth_Cons split: nat.splits)
qed

lemma step_keeps_finished:
  assumes "finished s p = Some outcome"
  shows "finished (fst (step s e)) p = Some outcome"
proof (cases e)
  case (Call url options)
  then show ?thesis
    using assms by (cases "pendingRequests s (dedupKey url options)")
      (simp_all add: deduplicatedFetch_def Let_def)
next
  case (FetchDone q out)
  then show ?thesis
    using assms by (auto simp: fetch_done_def split: option.splits)
next
  case (Deliver q)
  then show ?thesis using assms by (simp add: deliver_def split: option.splits)
qed

lemma run_keeps_finished:
  "finished s p = Some outcome \<Longrightarrow> finished (fst (run s es)) p = Some outcome"
proof (induction es arbitrary: s)
  case Nil
  then show ?case by simp
next
  case (Cons e es)
  show ?case
    using Cons.IH [OF step_keeps_finished [OF Cons.prems, of e]]
    unfolding run_Cons by simp
qed

lemma fetches_of_one:
  assumes "distinct (map fst xs)" and "(p, v) \<in> set xs"
  shows "length (filter (\<lambda>entry. fst entry = p) xs) = 1"
  using assms
proof (induction xs)
  case Nil
  then show ?case by simp
next
  case (Cons x xs)
  show ?case
  proof (cases "fst x = p")
    case True
    then have "p \<notin> fst ` set xs" using Cons.prems(1) by auto
    then have "filter (\<lambda>entry. fst entry = p) xs = []"
      by (auto simp: filter_empty_conv image_iff)
    then show ?thesis using True by simp
  next
    case False
    then have "(p, v) \<in> set xs" using Cons.prems(2) by auto
    then show ?thesis using Cons.IH Cons.prems(1) False by simp
  qed
qed

text \<open>
  C1. Take any state the page can reach, a call of \<open>deduplicatedFetch\<close> in it that
  returns promise \<open>p\<close>, and any later events before the fetch behind \<open>p\<close> ends:
  further calls with any key, ends of other fetches, deliveries. Every later call
  with the same key returns \<open>p\<close>, so all these callers await one promise. Exactly
  one \<open>fetch\<close> made \<open>p\<close>, and the calls added one \<open>fetch\<close> for the key if no request
  was registered and none if one was. Nobody has received anything from \<open>p\<close> yet.
  When the fetch ends, with any outcome, a response or a failure, the callback
  frees the key while the callers are still waiting. From then on, whatever
  happens, \<open>p\<close> is never registered again and the only outcome its callers can
  receive is that one; the delivery gives it to them. The next call with the key
  makes a new \<open>fetch\<close> and gets a new promise.
\<close>

theorem dedup_coalesces:
  assumes "s = fst (run dedup_init history)"
    and "deduplicatedFetch s url options = (p, s1)"
    and "\<not> list_ex (ends p) es"
  shows
    "(\<forall>i < length es. \<forall>u opts.
        es ! i = Call u opts \<and> dedupKey u opts = dedupKey url options \<longrightarrow>
        snd (run s1 es) ! i = Some p) \<and>
     length (fetches_of (fst (run s1 es)) p) = 1 \<and>
     length (fetches_for (fst (run s1 es)) (dedupKey url options)) =
       length (fetches_for s (dedupKey url options)) +
       (if pendingRequests s (dedupKey url options) = None then 1 else 0) \<and>
     settled (fst (run s1 es)) p = None \<and>
     pendingRequests (fetch_done (fst (run s1 es)) p outcome) (dedupKey url options) = None \<and>
     settled (fetch_done (fst (run s1 es)) p outcome) p = None \<and>
     (\<forall>k. pendingRequests (fst (run (fetch_done (fst (run s1 es)) p outcome) later)) k \<noteq> Some p) \<and>
     (settled (fst (run (fetch_done (fst (run s1 es)) p outcome) later)) p = None \<or>
      settled (fst (run (fetch_done (fst (run s1 es)) p outcome) later)) p = Some outcome) \<and>
     settled (deliver (fst (run (fetch_done (fst (run s1 es)) p outcome) later)) p) p = Some outcome \<and>
     fst (deduplicatedFetch (fetch_done (fst (run s1 es)) p outcome) url options) \<noteq> p \<and>
     length (fetch_log (snd (deduplicatedFetch (fetch_done (fst (run s1 es)) p outcome) url options))) =
       length (fetch_log (fst (run s1 es))) + 1"
proof -
  let ?k = "dedupKey url options"
  let ?s2 = "fst (run s1 es)"
  let ?s3 = "fetch_done ?s2 p outcome"
  let ?s4 = "fst (run ?s3 later)"
  have inv: "dedup_inv s" using assms(1) dedup_inv_run [OF dedup_inv_init] by simp
  have inv1: "dedup_inv s1" using dedup_inv_call [OF inv, of url options] assms(2) by simp
  have reg1: "pendingRequests s1 ?k = Some p"
  proof (cases "pendingRequests s ?k")
    case None
    then show ?thesis using assms(2) by (auto simp: deduplicatedFetch_miss)
  next
    case (Some q)
    then show ?thesis using assms(2) by (auto simp: deduplicatedFetch_hit)
  qed
  have cnt1: "length (fetches_for s1 ?k) =
       length (fetches_for s ?k) + (if pendingRequests s ?k = None then 1 else 0)"
  proof (cases "pendingRequests s ?k")
    case None
    then show ?thesis using assms(2) by (auto simp: deduplicatedFetch_miss fetches_for_def)
  next
    case (Some q)
    then show ?thesis using assms(2) by (auto simp: deduplicatedFetch_hit)
  qed
  note keep = run_keeps_registration [OF inv1 reg1 assms(3)]
  have inv2: "dedup_inv ?s2" using inv1 by (rule dedup_inv_run)
  have reg2: "pendingRequests ?s2 ?k = Some p" using keep by blast
  have unf2: "finished ?s2 p = None" using dedup_invD(3) [OF inv2 reg2] .
  have uns2: "settled ?s2 p = None"
    using dedup_invD(7) [OF inv2, of p] unf2 by (cases "settled ?s2 p") auto
  obtain u opts where mem: "(p, u, opts) \<in> set (fetch_log ?s2)" and key: "dedupKey u opts = ?k"
    using dedup_invD(4) [OF inv2 reg2] by blast
  have m: "map_of (fetch_log ?s2) p = Some (u, opts)"
    using mem map_of_fetch_log [OF dedup_invD(2) [OF inv2]] by simp
  have one: "length (fetches_of ?s2 p) = 1"
    unfolding fetches_of_def using fetches_of_one [OF dedup_invD(2) [OF inv2] mem] .
  have s3: "?s3 = ?s2\<lparr>pendingRequests := (pendingRequests ?s2)(?k := None),
                       finished := (finished ?s2)(p \<mapsto> outcome)\<rparr>"
    using fetch_done_inflight [OF m unf2, of outcome] key by simp
  have gone: "pendingRequests ?s3 ?k = None" and fin3: "finished ?s3 p = Some outcome"
    and uns3: "settled ?s3 p = None"
    using uns2 by (simp_all add: s3)
  have inv3: "dedup_inv ?s3" using inv2 by (rule dedup_inv_fetch_done)
  have inv4: "dedup_inv ?s4" using inv3 by (rule dedup_inv_run)
  have fin4: "finished ?s4 p = Some outcome" using fin3 by (rule run_keeps_finished)
  have nowhere: "\<forall>k. pendingRequests ?s4 k \<noteq> Some p"
    using dedup_invD(3) [OF inv4] fin4 by fastforce
  have same: "settled ?s4 p = None \<or> settled ?s4 p = Some outcome"
    using dedup_invD(7) [OF inv4, of p] fin4 by (cases "settled ?s4 p") auto
  have del: "settled (deliver ?s4 p) p = Some outcome"
    using fin4 by (simp add: deliver_def)
  have lt: "p < next_promise ?s2" using dedup_invD(1) [OF inv2 mem] .
  have again: "deduplicatedFetch ?s3 url options =
       (next_promise ?s3,
        ?s3\<lparr>fetch_log := fetch_log ?s3 @ [(next_promise ?s3, url, options)],
          pendingRequests := (pendingRequests ?s3)(?k \<mapsto> next_promise ?s3),
          next_promise := next_promise ?s3 + 1\<rparr>)"
    using gone by (rule deduplicatedFetch_miss)
  have n3: "next_promise ?s3 = next_promise ?s2" "fetch_log ?s3 = fetch_log ?s2"
    by (simp_all add: s3)
  have fresh: "fst (deduplicatedFetch ?s3 url options) \<noteq> p"
    and grows: "length (fetch_log (snd (deduplicatedFetch ?s3 url options))) = length (fetch_log ?s2) + 1"
    using lt by (simp_all add: again n3)
  have cnt2: "length (fetches_for ?s2 ?k) =
       length (fetches_for s ?k) + (if pendingRequests s ?k = None then 1 else 0)"
    using keep cnt1 by simp
  from keep one cnt2 uns2 gone uns3 nowhere same del fresh grows show ?thesis by blast
qed

theorem dedup_coalesces_witness:
  "deduplicatedFetch (fst (run dedup_init [])) ''u'' ''{}'' = (0, snd (deduplicatedFetch dedup_init ''u'' ''{}'')) \<and>
   \<not> list_ex (ends 0) three_calls \<and>
   snd (run (snd (deduplicatedFetch dedup_init ''u'' ''{}'')) three_calls) = [Some 0, Some 1, None, Some 0] \<and>
   length (fetches_of (fst (run (snd (deduplicatedFetch dedup_init ''u'' ''{}'')) three_calls)) 0) = 1 \<and>
   length (fetches_for (fst (run (snd (deduplicatedFetch dedup_init ''u'' ''{}'')) three_calls)) (dedupKey ''u'' ''{}'')) = 1 \<and>
   pendingRequests (fetch_done (fst (run (snd (deduplicatedFetch dedup_init ''u'' ''{}'')) three_calls)) 0
       (Inl (JsError ''TypeError'' ''Failed to fetch''))) (dedupKey ''u'' ''{}'') = None \<and>
   settled (fetch_done (fst (run (snd (deduplicatedFetch dedup_init ''u'' ''{}'')) three_calls)) 0
       (Inl (JsError ''TypeError'' ''Failed to fetch''))) 0 = None \<and>
   pendingRequests (fst (run (fetch_done (fst (run (snd (deduplicatedFetch dedup_init ''u'' ''{}'')) three_calls)) 0
       (Inl (JsError ''TypeError'' ''Failed to fetch''))) aftermath)) (dedupKey ''u'' ''{}'') = None \<and>
   settled (fst (run (fetch_done (fst (run (snd (deduplicatedFetch dedup_init ''u'' ''{}'')) three_calls)) 0
       (Inl (JsError ''TypeError'' ''Failed to fetch''))) aftermath)) 0
     = Some (Inl (JsError ''TypeError'' ''Failed to fetch'')) \<and>
   fst (deduplicatedFetch (fetch_done (fst (run (snd (deduplicatedFetch dedup_init ''u'' ''{}'')) three_calls)) 0
       (Inl (JsError ''TypeError'' ''Failed to fetch''))) ''u'' ''{}'') = 2"
  using dedup_coalesces [of dedup_init "[]" "''u''" "''{}''" 0 "snd (deduplicatedFetch dedup_init ''u'' ''{}'')"
      three_calls "Inl (JsError ''TypeError'' ''Failed to fetch'')" aftermath]
  by (simp add: three_calls_def aftermath_def deduplicatedFetch_def dedup_init_def dedupKey_def
      fetch_done_def deliver_def fetches_of_def fetches_for_def api_status_def Let_def)

end
